theory Spec2Isabelle
  imports Complex_Main "HOL-Library.Sublist"
begin

section \<open>Python strings and values used by the download engine\<close>

text \<open>
  Python \<open>str\<close> values are modelled as \<open>string\<close>; the model covers the code points
  below 256.  \<open>sub in s\<close> is \<^const>\<open>sublist\<close>, \<open>s.endswith(t)\<close> is \<^const>\<open>suffix\<close>,
  \<open>s.startswith(t)\<close> is \<^const>\<open>prefix\<close>.
\<close>

datatype py_error = KeyError | ValueError

text \<open>
  A Python \<open>float\<close> is the exact rational it denotes, or one of the three special
  values; the rounding of IEEE doubles is not modelled.
\<close>

datatype pyfloat = Fin rat | PInf | NInf | NaN

definition truthy_float :: "pyfloat \<Rightarrow> bool" where
  \<comment> \<open>\<open>bool(x)\<close>: only zero is falsy\<close>
  "truthy_float x = (x \<noteq> Fin 0)"

definition digit_char :: "nat \<Rightarrow> char" where
  "digit_char n = ''0123456789'' ! (n mod 10)"

fun str_nat :: "nat \<Rightarrow> string" where
  "str_nat n = (if n < 10 then [digit_char n] else str_nat (n div 10) @ [digit_char (n mod 10)])"

declare str_nat.simps [simp del]

definition str_int :: "int \<Rightarrow> string" where
  \<comment> \<open>\<open>str(i)\<close> and \<open>f"{i}"\<close> for an \<open>int\<close>\<close>
  "str_int i = (if i < 0 then CHR ''-'' # str_nat (nat (- i)) else str_nat (nat i))"

fun join :: "string \<Rightarrow> string list \<Rightarrow> string" where
  \<comment> \<open>\<open>sep.join(xs)\<close>\<close>
  "join sep [] = []"
| "join sep [x] = x"
| "join sep (x # y # ys) = x @ sep @ join sep (y # ys)"

fun split_on :: "(char \<Rightarrow> bool) \<Rightarrow> string \<Rightarrow> string list" where
  \<comment> \<open>the fields between separator characters, empty fields included\<close>
  "split_on p [] = [[]]"
| "split_on p (c # cs) =
     (if p c then [] # split_on p cs
      else (case split_on p cs of [] \<Rightarrow> [[c]] | f # fs \<Rightarrow> (c # f) # fs))"

definition is_space :: "char \<Rightarrow> bool" where
  \<comment> \<open>\<open>str.isspace\<close> on code points below 256\<close>
  "is_space c = (c \<in> set [CHR 0x09, CHR 0x0A, CHR 0x0B, CHR 0x0C, CHR 0x0D,
                          CHR 0x1C, CHR 0x1D, CHR 0x1E, CHR 0x1F, CHR 0x20, CHR 0x85, CHR 0xA0])"

definition split :: "string \<Rightarrow> string list" where
  \<comment> \<open>\<open>s.split()\<close>: maximal runs of non-whitespace\<close>
  "split s = filter (\<lambda>f. f \<noteq> []) (split_on is_space s)"

definition strip :: "string \<Rightarrow> string" where
  \<comment> \<open>\<open>s.strip()\<close>\<close>
  "strip s = rev (dropWhile is_space (rev (dropWhile is_space s)))"

section \<open>Command Builder\<close>

subsection \<open>Queue-backed service: \<open>DownloadService._build_download_command\<close>\<close>

text \<open>
  The configuration is a \<open>Dict[str, Any]\<close>.  A key read with a default is an option
  (\<open>None\<close>: the key is absent); a flag read without a default is falsy when absent, so
  it is a \<open>bool\<close>; an optional value read without a default is an option whose \<open>None\<close>
  stands for an absent key or a stored \<open>None\<close>.  \<open>config["url"]\<close> raises \<open>KeyError\<close>
  when the key is absent.  The field \<open>cfg_k\<close> is the key \<open>k\<close>.
\<close>

record config =
  cfg_url :: "string option"
  cfg_output_directory :: "string option"
  cfg_audio_only :: bool
  cfg_quality :: "string option"
  cfg_fps :: "int option"
  cfg_extract_audio :: bool
  cfg_audio_format :: "string option"
  cfg_format :: "string option"
  cfg_include_subtitles :: bool
  cfg_subtitle_languages :: "string list option"
  cfg_auto_subtitles :: bool
  cfg_include_thumbnail :: bool
  cfg_include_metadata :: "bool option"
  cfg_start_time :: "string option"
  cfg_end_time :: "string option"
  cfg_playlist_start :: "int option"
  cfg_playlist_end :: "int option"

definition get_default :: "'a option \<Rightarrow> 'a \<Rightarrow> 'a" where
  \<comment> \<open>\<open>config.get(key, default)\<close>\<close>
  "get_default v d = (case v of None \<Rightarrow> d | Some x \<Rightarrow> x)"

definition truthy_str :: "string option \<Rightarrow> bool" where
  "truthy_str v = (case v of None \<Rightarrow> False | Some s \<Rightarrow> s \<noteq> [])"

definition if_int :: "int option \<Rightarrow> (int \<Rightarrow> 'a list) \<Rightarrow> 'a list" where
  \<comment> \<open>\<open>if v: ...\<close> for an optional \<open>int\<close>: \<open>None\<close> and \<open>0\<close> are falsy\<close>
  "if_int v body = (case v of None \<Rightarrow> [] | Some i \<Rightarrow> if i \<noteq> 0 then body i else [])"

definition if_str :: "string option \<Rightarrow> (string \<Rightarrow> 'a list) \<Rightarrow> 'a list" where
  \<comment> \<open>\<open>if v: ...\<close> for an optional \<open>str\<close>: \<open>None\<close> and \<open>""\<close> are falsy\<close>
  "if_str v body = (case v of None \<Rightarrow> [] | Some s \<Rightarrow> if s \<noteq> [] then body s else [])"

definition path_parts :: "string \<Rightarrow> string list" where
  \<comment> \<open>\<open>PurePosixPath(s).parts\<close> without the root: empty and \<open>.\<close> components are dropped\<close>
  "path_parts s = filter (\<lambda>p. p \<noteq> [] \<and> p \<noteq> ''.'') (split_on (\<lambda>c. c = CHR ''/'') s)"

definition path_root :: "string \<Rightarrow> string" where
  \<comment> \<open>exactly two leading slashes are kept, any other number is one\<close>
  "path_root s =
     (if prefix ''//'' s \<and> \<not> prefix ''///'' s then ''//''
      else if prefix ''/'' s then ''/'' else [])"

definition output_template :: "string \<Rightarrow> string" where
  \<comment> \<open>\<open>str(Path(d) / "%(title)s.%(ext)s")\<close>\<close>
  "output_template d = path_root d @ join ''/'' (path_parts d @ [''%(title)s.%(ext)s''])"

definition fps_filter :: "int option \<Rightarrow> string" where
  \<comment> \<open>\<open>f"[fps<={fps}]" if fps else ""\<close>\<close>
  "fps_filter fps = if_int fps (\<lambda>i. ''[fps<='' @ str_int i @ '']'')"

definition format_str :: "string \<Rightarrow> int option \<Rightarrow> string" where
  "format_str quality fps =
     ''bestvideo[height<='' @ quality @ '']'' @ fps_filter fps @ ''+bestaudio/best[height<=''
       @ quality @ '']''"

definition cmd_format :: "config \<Rightarrow> string list" where
  "cmd_format c =
     (if cfg_audio_only c then [''-f'', ''bestaudio'']
      else [''-f'', format_str (get_default (cfg_quality c) ''1080'') (cfg_fps c)])"

definition cmd_extract :: "config \<Rightarrow> string list" where
  "cmd_extract c =
     (if cfg_extract_audio c
      then [''--extract-audio'', ''--audio-format'', get_default (cfg_audio_format c) ''mp3'']
      else [])"

definition cmd_remux :: "config \<Rightarrow> string list" where
  "cmd_remux c =
     (if \<not> cfg_audio_only c \<and> \<not> cfg_extract_audio c
      then [''--remux-video'', get_default (cfg_format c) ''mp4'']
      else [])"

definition cmd_subtitles :: "config \<Rightarrow> string list" where
  "cmd_subtitles c =
     (if cfg_include_subtitles c
      then ''--write-subs'' #
        (let subtitle_langs = get_default (cfg_subtitle_languages c) [''en'']
         in if subtitle_langs \<noteq> [] then [''--sub-langs'', join '','' subtitle_langs] else [])
      else [])
     @ (if cfg_auto_subtitles c then [''--write-auto-subs''] else [])"

definition cmd_extras :: "config \<Rightarrow> string list" where
  "cmd_extras c =
     (if cfg_include_thumbnail c then [''--write-thumbnail''] else [])
     @ (if get_default (cfg_include_metadata c) True
        then [''--write-info-json'', ''--write-description''] else [])"

definition cmd_time_range :: "config \<Rightarrow> string list" where
  "cmd_time_range c =
     (if truthy_str (cfg_start_time c) \<or> truthy_str (cfg_end_time c)
      then [''--external-downloader'', ''ffmpeg'']
        @ if_str (cfg_start_time c) (\<lambda>s. [''--external-downloader-args'', ''-ss '' @ s])
        @ if_str (cfg_end_time c)
            (\<lambda>e. if truthy_str (cfg_start_time c)
                 then [''--external-downloader-args'', ''-to '' @ e]
                 else [''--external-downloader-args'', ''-to '' @ e])
      else [])"

definition cmd_playlist :: "config \<Rightarrow> string list" where
  "cmd_playlist c =
     if_int (cfg_playlist_start c) (\<lambda>i. [''--playlist-start'', str_int i])
     @ if_int (cfg_playlist_end c) (\<lambda>i. [''--playlist-end'', str_int i])"

definition additional_options :: "string list" where
  "additional_options =
     [''--embed-chapters'', ''--ignore-errors'', ''--no-warnings'', ''--progress'', ''--newline'']"

definition build_download_command :: "config \<Rightarrow> py_error + string list" where
  \<comment> \<open>\<open>self.yt_dlp_path\<close> is \<open>"yt-dlp"\<close>; creating the output directory is not modelled\<close>
  "build_download_command c =
     (let cmd = [''yt-dlp'']
          @ [''-o'', output_template (get_default (cfg_output_directory c) ''downloads'')]
          @ cmd_format c @ cmd_extract c @ cmd_remux c @ cmd_subtitles c @ cmd_extras c
          @ cmd_time_range c @ cmd_playlist c @ additional_options
      in case cfg_url c of None \<Rightarrow> Inl KeyError | Some u \<Rightarrow> Inr (cmd @ [u]))"

section \<open>Progress Parser\<close>

subsection \<open>\<open>float(s)\<close>\<close>

text \<open>
  \<open>float\<close> accepts, after stripping whitespace, an optional sign followed by \<open>inf\<close>,
  \<open>infinity\<close> or \<open>nan\<close> in any letter case, or by a decimal number: digits with single
  underscores between them, an optional fraction, an optional exponent.  Anything else
  raises \<open>ValueError\<close>, which is \<open>None\<close> here.
\<close>

definition is_digit :: "char \<Rightarrow> bool" where
  "is_digit c = (c \<in> set ''0123456789'')"

definition digit_of :: "char \<Rightarrow> nat" where
  "digit_of c =
     (case map_of (zip ''0123456789'' [0, 1, 2, 3, 4, 5, 6, 7, 8, 9]) c of
        Some d \<Rightarrow> d
      | None \<Rightarrow> 0)"

definition digits_value :: "string \<Rightarrow> nat" where
  "digits_value ds = foldl (\<lambda>a c. 10 * a + digit_of c) 0 ds"

definition is_digit_or_underscore :: "char \<Rightarrow> bool" where
  "is_digit_or_underscore c = (is_digit c \<or> c = CHR ''_'')"

definition valid_digitpart :: "string \<Rightarrow> bool" where
  \<comment> \<open>\<open>digit (["_"] digit)*\<close>\<close>
  "valid_digitpart s =
     (s \<noteq> [] \<and> list_all is_digit_or_underscore s \<and> is_digit (hd s) \<and> is_digit (last s)
      \<and> \<not> sublist ''__'' s)"

definition without_underscores :: "string \<Rightarrow> string" where
  "without_underscores s = filter (\<lambda>c. c \<noteq> CHR ''_'') s"

definition split_sign :: "string \<Rightarrow> bool \<times> string" where
  \<comment> \<open>an optional leading sign: whether it is a minus, and the rest\<close>
  "split_sign s =
     (case s of
        c # cs \<Rightarrow> if c = CHR ''-'' then (True, cs) else if c = CHR ''+'' then (False, cs)
                  else (False, s)
      | [] \<Rightarrow> (False, s))"

definition parse_exponent :: "string \<Rightarrow> int option" where
  \<comment> \<open>what follows the fraction: nothing, or \<open>e\<close>, a sign and a digit part\<close>
  "parse_exponent r =
     (case r of
        [] \<Rightarrow> Some 0
      | c # t \<Rightarrow>
          if c = CHR ''e'' \<or> c = CHR ''E''
          then (let (neg, ds) = split_sign t
                in if valid_digitpart ds
                   then Some (if neg then - int (digits_value (without_underscores ds))
                              else int (digits_value (without_underscores ds)))
                   else None)
          else None)"

definition scale10 :: "rat \<Rightarrow> int \<Rightarrow> rat" where
  "scale10 m e = (if 0 \<le> e then m * 10 ^ nat e else m / 10 ^ nat (- e))"

definition parse_number :: "string \<Rightarrow> rat option" where
  "parse_number body =
     (let ip = takeWhile is_digit_or_underscore body;
          r1 = dropWhile is_digit_or_underscore body;
          has_dot = prefix ''.'' r1;
          fp = (if has_dot then takeWhile is_digit_or_underscore (tl r1) else []);
          r2 = (if has_dot then dropWhile is_digit_or_underscore (tl r1) else r1)
      in if (ip = [] \<or> valid_digitpart ip) \<and> (fp = [] \<or> valid_digitpart fp)
            \<and> (ip \<noteq> [] \<or> fp \<noteq> [])
         then (case parse_exponent r2 of
                 None \<Rightarrow> None
               | Some e \<Rightarrow>
                   Some (scale10
                     (of_nat (digits_value (without_underscores ip))
                      + of_nat (digits_value (without_underscores fp))
                        / 10 ^ length (without_underscores fp)) e))
         else None)"

definition is_word :: "string \<Rightarrow> string \<Rightarrow> string \<Rightarrow> bool" where
  \<comment> \<open>\<open>s\<close> spells the word, given in lower and in upper case, in any mix of cases\<close>
  "is_word lo up s = (length s = length lo \<and> list_all2 (\<lambda>c (l, u). c = l \<or> c = u) s (zip lo up))"

definition py_float :: "string \<Rightarrow> pyfloat option" where
  "py_float s =
     (let (neg, body) = split_sign (strip s)
      in if is_word ''inf'' ''INF'' body \<or> is_word ''infinity'' ''INFINITY'' body
         then Some (if neg then NInf else PInf)
         else if is_word ''nan'' ''NAN'' body then Some NaN
         else (case parse_number body of
                 None \<Rightarrow> None
               | Some q \<Rightarrow> Some (Fin (if neg then - q else q))))"

definition py_scale :: "pyfloat \<Rightarrow> nat \<Rightarrow> pyfloat" where
  \<comment> \<open>\<open>value * m\<close> for a positive integer \<open>m\<close>\<close>
  "py_scale v m = (case v of Fin q \<Rightarrow> Fin (q * of_nat m) | PInf \<Rightarrow> PInf | NInf \<Rightarrow> NInf | NaN \<Rightarrow> NaN)"

subsection \<open>\<open>DownloadService._extract_speed\<close>\<close>

text \<open>
  \<open>re.search(r"(\d+\.?\d*)(K|M|G)iB/s", line)\<close>: the leftmost position at which the
  pattern matches.  At a position the pattern takes the longest run of digits, at least
  one; then a dot when one follows, with the longest run of digits after it; then the unit
  letter and \<open>iB/s\<close>.  Giving back digits or the dot cannot help, since what would follow
  is a digit or a dot where the unit letter is needed.
\<close>

definition is_unit :: "char \<Rightarrow> bool" where
  "is_unit c = (c = CHR ''K'' \<or> c = CHR ''M'' \<or> c = CHR ''G'')"

definition unit_at :: "string \<Rightarrow> string \<Rightarrow> (string \<times> char) option" where
  "unit_at g r =
     (case r of
        [] \<Rightarrow> None
      | u # r' \<Rightarrow> if is_unit u \<and> prefix ''iB/s'' r' then Some (g, u) else None)"

definition match_speed :: "string \<Rightarrow> (string \<times> char) option" where
  \<comment> \<open>the pattern at the start of \<open>s\<close>: groups 1 and 2\<close>
  "match_speed s =
     (let d1 = takeWhile is_digit s; r1 = dropWhile is_digit s
      in if d1 = [] then None
         else if prefix ''.'' r1
           then unit_at (d1 @ ''.'' @ takeWhile is_digit (tl r1)) (dropWhile is_digit (tl r1))
           else unit_at d1 r1)"

fun search_speed :: "string \<Rightarrow> (string \<times> char) option" where
  "search_speed [] = None"
| "search_speed (c # cs) =
     (case match_speed (c # cs) of Some m \<Rightarrow> Some m | None \<Rightarrow> search_speed cs)"

definition multipliers :: "char \<Rightarrow> nat" where
  \<comment> \<open>\<open>multipliers.get(unit, 1)\<close>\<close>
  "multipliers unit =
     (if unit = CHR ''K'' then 1024 else if unit = CHR ''M'' then 1024 ^ 2
      else if unit = CHR ''G'' then 1024 ^ 3 else 1)"

definition extract_speed :: "string \<Rightarrow> pyfloat option" where
  \<comment> \<open>any exception inside, a \<open>ValueError\<close> of \<open>float\<close> included, returns \<open>None\<close>\<close>
  "extract_speed line =
     (case search_speed line of
        None \<Rightarrow> None
      | Some (g, unit) \<Rightarrow>
          (case py_float g of
             None \<Rightarrow> None
           | Some v \<Rightarrow> Some (py_scale v (multipliers unit))))"

subsection \<open>The percentage token\<close>

definition without_percent :: "string \<Rightarrow> string" where
  \<comment> \<open>\<open>part.replace("%", "")\<close>\<close>
  "without_percent part = filter (\<lambda>c. c \<noteq> CHR ''%'') part"

fun first_percentage :: "string list \<Rightarrow> pyfloat option" where
  \<comment> \<open>the loop of \<open>_parse_progress\<close>: a \<open>ValueError\<close> is passed over and the loop goes on;
      the first value that parses ends it\<close>
  "first_percentage [] = None"
| "first_percentage (part # parts) =
     (if suffix ''%'' part
      then (case py_float (without_percent part) of
              Some percentage \<Rightarrow> Some percentage
            | None \<Rightarrow> first_percentage parts)
      else first_percentage parts)"

fun job_percentage :: "string list \<Rightarrow> pyfloat option" where
  \<comment> \<open>the loop of \<open>download_with_progress\<close>: the \<open>try\<close> is around the loop, so a
      \<open>ValueError\<close> ends it with nothing\<close>
  "job_percentage [] = None"
| "job_percentage (part # parts) =
     (if suffix ''%'' part then py_float (without_percent part) else job_percentage parts)"

subsection \<open>Tokens of a line, as the specification names them\<close>

definition decimal_value :: "string \<Rightarrow> string \<Rightarrow> rat" where
  \<comment> \<open>the number written \<open>d1.d2\<close>\<close>
  "decimal_value d1 d2 = of_nat (digits_value d1) + of_nat (digits_value d2) / 10 ^ length d2"

definition starts_with_speed_token :: "string \<Rightarrow> bool" where
  "starts_with_speed_token s =
     (\<exists>d1 d2 dot u post. s = d1 @ dot @ d2 @ u # ''iB/s'' @ post
        \<and> d1 \<noteq> [] \<and> list_all is_digit d1 \<and> list_all is_digit d2
        \<and> (dot = ''.'' \<or> dot = [] \<and> d2 = []) \<and> is_unit u)"

definition contains_speed_token :: "string \<Rightarrow> bool" where
  "contains_speed_token line = (\<exists>pre s. line = pre @ s \<and> starts_with_speed_token s)"

definition percentage_token :: "string \<Rightarrow> bool" where
  \<comment> \<open>a whitespace-delimited token that ends in \<open>%\<close> and parses as a float without it\<close>
  "percentage_token part = (suffix ''%'' part \<and> py_float (without_percent part) \<noteq> None)"

definition contains_percentage_token :: "string \<Rightarrow> bool" where
  "contains_percentage_token line = list_ex percentage_token (split line)"

section \<open>Queue-backed service: publishing, supervision, cancellation\<close>

subsection \<open>Ephemeral state\<close>

text \<open>
  \<open>update_data\<close>, the dictionary stored under \<open>download_status:{id}\<close>; an absent key
  is \<open>None\<close>, and the field \<open>sn_k\<close> is the key \<open>k\<close>.  The store keeps the last value set under a key.  \<open>status_log\<close> records each
  value in the order the service sets it.  A failure of the store is logged and swallowed
  by the service and the expiry of a key is the store's business; neither is modelled.
  \<open>clock\<close> is what \<open>datetime.utcnow()\<close> and \<open>time.time()\<close> read.
\<close>

record snapshot =
  sn_status :: string
  sn_updated_at :: nat
  sn_progress :: "pyfloat option"
  sn_error_message :: "string option"
  sn_completed_at :: "nat option"
  sn_started_at :: "nat option"

record speed_sample =
  sp_speed :: pyfloat
  sp_timestamp :: nat

record service =
  active_downloads :: "nat set"
  download_queue :: "(nat \<times> nat) list"
  download_status :: "nat \<rightharpoonup> snapshot"
  download_speed :: "nat \<rightharpoonup> speed_sample"
  status_log :: "(nat \<times> snapshot) list"
  clock :: nat

definition queue_download :: "service \<Rightarrow> nat \<Rightarrow> service \<times> bool" where
  \<comment> \<open>\<open>LPUSH\<close> puts the item at the head of the list\<close>
  "queue_download s download_id =
     (s\<lparr>download_queue := (download_id, clock s) # download_queue s\<rparr>, True)"

definition update_download_status ::
  "service \<Rightarrow> nat \<Rightarrow> string \<Rightarrow> pyfloat option \<Rightarrow> string option \<Rightarrow> service" where
  "update_download_status s download_id status progress error_message =
     (let update_data =
        \<lparr>sn_status = status, sn_updated_at = clock s, sn_progress = progress,
         sn_error_message = (if truthy_str error_message then error_message else None),
         sn_completed_at = (if status = ''completed'' then Some (clock s) else None),
         sn_started_at =
           (if status \<noteq> ''completed'' \<and> status = ''downloading'' then Some (clock s) else None)\<rparr>
      in s\<lparr>download_status := (download_status s)(download_id \<mapsto> update_data),
           status_log := status_log s @ [(download_id, update_data)]\<rparr>)"

definition update_download_progress :: "service \<Rightarrow> nat \<Rightarrow> pyfloat \<Rightarrow> service" where
  "update_download_progress s download_id progress =
     update_download_status s download_id ''downloading'' (Some progress) None"

definition update_download_speed :: "service \<Rightarrow> nat \<Rightarrow> pyfloat \<Rightarrow> service" where
  "update_download_speed s download_id speed =
     s\<lparr>download_speed :=
         (download_speed s)(download_id \<mapsto> \<lparr>sp_speed = speed, sp_timestamp = clock s\<rparr>)\<rparr>"

subsection \<open>\<open>DownloadService._parse_progress\<close>\<close>

definition parse_progress :: "service \<Rightarrow> nat \<Rightarrow> string \<Rightarrow> service" where
  "parse_progress s download_id line =
     (let s1 =
        (if sublist ''[download]'' line \<and> sublist ''%'' line
         then (case first_percentage (split line) of
                 Some percentage \<Rightarrow> update_download_progress s download_id percentage
               | None \<Rightarrow> s)
         else s)
      in if sublist ''[download]'' line \<and> (sublist ''/s'' line \<or> sublist ''iB/s'' line)
         then (case extract_speed line of
                 Some speed_info \<Rightarrow>
                   if truthy_float speed_info then update_download_speed s1 download_id speed_info
                   else s1
               | None \<Rightarrow> s1)
         else s1)"

subsection \<open>\<open>DownloadService._execute_download\<close> and \<open>process_download\<close>\<close>

text \<open>
  The subprocess as its supervisor sees it: it cannot be spawned, with the text of the
  exception; or it writes these lines, already decoded, and exits with this code.
\<close>

datatype process = LaunchFailure string | Exits "string list" int

definition register_task :: "service \<Rightarrow> nat \<Rightarrow> service" where
  \<comment> \<open>\<open>self.active_downloads[download_id] = task\<close>\<close>
  "register_task s download_id = s\<lparr>active_downloads := insert download_id (active_downloads s)\<rparr>"

definition read_line :: "service \<Rightarrow> nat \<Rightarrow> string \<Rightarrow> service" where
  "read_line s download_id line =
     (let line_str = strip line
      in if line_str \<noteq> [] then parse_progress s download_id line_str else s)"

definition read_output :: "service \<Rightarrow> nat \<Rightarrow> string list \<Rightarrow> service" where
  "read_output s download_id lines = foldl (\<lambda>s line. read_line s download_id line) s lines"

definition on_exit :: "service \<Rightarrow> nat \<Rightarrow> int \<Rightarrow> service \<times> bool" where
  "on_exit s download_id returncode =
     (let success = (returncode = 0)
      in if success
         then (update_download_status s download_id ''completed'' (Some (Fin 100)) None, success)
         else (update_download_status s download_id ''failed'' (Some (Fin 0)) None, success))"

definition execute_download :: "service \<Rightarrow> nat \<Rightarrow> process \<Rightarrow> service \<times> bool" where
  "execute_download s download_id p =
     (case p of
        LaunchFailure e \<Rightarrow>
          (update_download_status s download_id ''failed'' (Some (Fin 0)) (Some e), False)
      | Exits lines returncode \<Rightarrow>
          on_exit (read_output (register_task s download_id) download_id lines) download_id
            returncode)"

definition unregister_task :: "service \<Rightarrow> nat \<Rightarrow> service" where
  \<comment> \<open>the \<open>finally\<close> of \<open>process_download\<close>\<close>
  "unregister_task s download_id = s\<lparr>active_downloads := active_downloads s - {download_id}\<rparr>"

definition process_download :: "service \<Rightarrow> nat \<Rightarrow> config \<Rightarrow> process \<Rightarrow> service \<times> bool" where
  "process_download s download_id download_config p =
     (case build_download_command download_config of
        Inl e \<Rightarrow> (unregister_task s download_id, False)
      | Inr cmd \<Rightarrow>
          (let (s', success) = execute_download s download_id p
           in (unregister_task s' download_id, success)))"

subsection \<open>Concurrent runs\<close>

text \<open>
  Each call of \<open>process_download\<close> is a task of its own; tasks interleave where they
  await: after the spawn, between two lines of output, at the exit.  An event is one such
  step of one task.
\<close>

datatype event = Spawned nat | Output nat string | Exited nat int

fun task_step :: "service \<Rightarrow> event \<Rightarrow> service" where
  "task_step s (Spawned download_id) = register_task s download_id"
| "task_step s (Output download_id line) =
     (if download_id \<in> active_downloads s then read_line s download_id line else s)"
| "task_step s (Exited download_id returncode) =
     (if download_id \<in> active_downloads s
      then unregister_task (fst (on_exit s download_id returncode)) download_id
      else s)"

definition run_tasks :: "service \<Rightarrow> event list \<Rightarrow> service" where
  "run_tasks s evs = foldl task_step s evs"

definition initial_service :: service where
  "initial_service =
     \<lparr>active_downloads = {}, download_queue = [], download_status = Map.empty,
      download_speed = Map.empty, status_log = [], clock = 0\<rparr>"

definition is_downloading :: "service \<Rightarrow> nat \<Rightarrow> bool" where
  \<comment> \<open>the published status of the job is \<open>downloading\<close>\<close>
  "is_downloading s download_id =
     (case download_status s download_id of
        None \<Rightarrow> False
      | Some sn \<Rightarrow> sn_status sn = ''downloading'')"

record queue_status =
  queue_length :: nat
  active_count :: nat
  total_capacity :: nat
  available_slots :: nat

definition get_queue_status :: "nat \<Rightarrow> service \<Rightarrow> queue_status" where
  \<comment> \<open>the first argument is \<open>settings.MAX_CONCURRENT_DOWNLOADS\<close>; \<open>max(0, a - b)\<close> on
      integers is the truncated difference of naturals\<close>
  "get_queue_status max_concurrent_downloads s =
     \<lparr>queue_length = length (download_queue s),
      active_count = card (active_downloads s),
      total_capacity = max_concurrent_downloads,
      available_slots = max_concurrent_downloads - card (active_downloads s)\<rparr>"

subsection \<open>Cancellation\<close>

text \<open>
  The process of a task at the moment the task is cancelled: not spawned yet, already
  exited, or alive.  For a live process, the value says what \<open>process.wait()\<close> does after
  \<open>process.terminate()\<close>: it returns once the process has exited, with its code, or it
  never returns (\<open>None\<close>), when the process ignores the signal and goes on for ever.
\<close>

datatype process_state = NotSpawned | HasExited int | Alive "int option"

definition terminate_and_wait :: "process_state \<Rightarrow> process_state option" where
  \<comment> \<open>\<open>if process and process.returncode is None: process.terminate(); await process.wait()\<close>\<close>
  "terminate_and_wait p =
     (case p of
        Alive None \<Rightarrow> None
      | Alive (Some returncode) \<Rightarrow> Some (HasExited returncode)
      | _ \<Rightarrow> Some p)"

definition on_cancelled :: "service \<Rightarrow> nat \<Rightarrow> process_state \<Rightarrow> service option" where
  \<comment> \<open>the \<open>except asyncio.CancelledError\<close> branch, then the \<open>finally\<close> of \<open>process_download\<close>\<close>
  "on_cancelled s download_id p =
     (case terminate_and_wait p of
        None \<Rightarrow> None
      | Some p' \<Rightarrow>
          Some (unregister_task
            (update_download_status s download_id ''cancelled'' (Some (Fin 0)) None) download_id))"

definition cancel_download :: "service \<Rightarrow> nat \<Rightarrow> process_state \<Rightarrow> (service \<times> bool) option" where
  \<comment> \<open>\<open>None\<close>: \<open>await task\<close> never returns.  After the task has ended, the key is gone
      already, \<open>del\<close> raises \<open>KeyError\<close>, and the handler returns \<open>False\<close>.\<close>
  "cancel_download s download_id p =
     (if download_id \<in> active_downloads s
      then (case on_cancelled s download_id p of
              None \<Rightarrow> None
            | Some s' \<Rightarrow>
                if download_id \<in> active_downloads s'
                then Some (unregister_task s' download_id, True)
                else Some (s', False))
      else Some (s, False))"

section \<open>In-process downloader\<close>

subsection \<open>\<open>DownloadJob\<close> and \<open>AdvancedYouTubeDownloader.build_command\<close>\<close>

record DownloadJob =
  url :: string
  output_dir :: string
  resolution :: string
  fps :: "int option"
  format :: string
  audio_only :: bool
  extract_audio :: bool
  audio_format :: string
  subtitles :: bool
  auto_subtitles :: bool
  subtitle_langs :: "string list"
  thumbnail :: bool
  metadata :: bool
  start_time :: "string option"
  end_time :: "string option"
  speed :: "pyfloat option"
  playlist_start :: "int option"
  playlist_end :: "int option"
  status :: string
  progress :: pyfloat
  file_path :: "string option"
  error_message :: "string option"
  created_at :: nat
  completed_at :: "nat option"

definition os_path_join :: "string \<Rightarrow> string \<Rightarrow> string" where
  \<comment> \<open>\<open>os.path.join(a, b)\<close> on POSIX for a relative \<open>b\<close>\<close>
  "os_path_join a b = (if a = [] \<or> suffix ''/'' a then a @ b else a @ ''/'' @ b)"

definition job_format_str :: "DownloadJob \<Rightarrow> string" where
  "job_format_str job =
     ''bestvideo[height<='' @ resolution job @ '']'' @ fps_filter (fps job)
       @ ''+bestaudio/best[height<='' @ resolution job @ '']''"

definition job_cmd_format :: "DownloadJob \<Rightarrow> string list" where
  "job_cmd_format job =
     (if audio_only job then [''-f'', ''bestaudio''] else [''-f'', job_format_str job])"

definition job_cmd_extract :: "DownloadJob \<Rightarrow> string list" where
  "job_cmd_extract job =
     (if extract_audio job then [''--extract-audio'', ''--audio-format'', audio_format job]
      else [])"

definition job_cmd_remux :: "DownloadJob \<Rightarrow> string list" where
  "job_cmd_remux job =
     (if \<not> audio_only job \<and> \<not> extract_audio job then [''--remux-video'', format job] else [])"

definition job_cmd_subtitles :: "DownloadJob \<Rightarrow> string list" where
  "job_cmd_subtitles job =
     (if subtitles job
      then ''--write-subs'' #
        (if subtitle_langs job \<noteq> [] then [''--sub-langs'', join '','' (subtitle_langs job)]
         else [])
      else [])
     @ (if auto_subtitles job then [''--write-auto-subs''] else [])"

definition job_cmd_extras :: "DownloadJob \<Rightarrow> string list" where
  "job_cmd_extras job =
     (if thumbnail job then [''--write-thumbnail''] else [])
     @ (if metadata job then [''--write-info-json'', ''--write-description''] else [])"

definition job_cmd_time_range :: "DownloadJob \<Rightarrow> string list" where
  "job_cmd_time_range job =
     if_str (start_time job)
       (\<lambda>s. [''--external-downloader'', ''ffmpeg'', ''--external-downloader-args'', ''-ss '' @ s])
     @ if_str (end_time job)
         (\<lambda>e. (if \<not> truthy_str (start_time job) then [''--external-downloader'', ''ffmpeg'']
               else [])
            @ [''--external-downloader-args'', ''-to '' @ e])"

definition job_cmd_playlist :: "DownloadJob \<Rightarrow> string list" where
  "job_cmd_playlist job =
     if_int (playlist_start job) (\<lambda>i. [''--playlist-start'', str_int i])
     @ if_int (playlist_end job) (\<lambda>i. [''--playlist-end'', str_int i])"

definition job_cmd_speed :: "(pyfloat \<Rightarrow> string) \<Rightarrow> DownloadJob \<Rightarrow> string list" where
  \<comment> \<open>the first argument is the text of \<open>f"{job.speed}"\<close>, Python's float formatting\<close>
  "job_cmd_speed float_str job =
     (case speed job of
        Some v \<Rightarrow> if truthy_float v then [''--limit-rate'', float_str v @ ''M''] else []
      | None \<Rightarrow> [])"

definition build_command :: "(pyfloat \<Rightarrow> string) \<Rightarrow> DownloadJob \<Rightarrow> string list" where
  \<comment> \<open>creating the output directory is not modelled\<close>
  "build_command float_str job =
     [''yt-dlp'']
     @ [''-o'', os_path_join (output_dir job) ''%(title)s.%(ext)s'']
     @ job_cmd_format job @ job_cmd_extract job @ job_cmd_remux job @ job_cmd_subtitles job
     @ job_cmd_extras job @ job_cmd_time_range job @ job_cmd_playlist job
     @ job_cmd_speed float_str job @ additional_options
     @ [url job]"

subsection \<open>\<open>AdvancedYouTubeDownloader.download_with_progress\<close>\<close>

text \<open>
  The table \<open>downloads\<close> maps a row id to the saved job.  \<open>update_job\<close> is an SQL
  \<open>UPDATE ... WHERE id = ?\<close>: it changes the named columns of the row, if there is one.
\<close>

definition update_job ::
  "(nat \<rightharpoonup> DownloadJob) \<Rightarrow> nat \<Rightarrow> (DownloadJob \<Rightarrow> DownloadJob) \<Rightarrow> (nat \<rightharpoonup> DownloadJob)" where
  "update_job table job_id set_columns =
     (case table job_id of None \<Rightarrow> table | Some row \<Rightarrow> table(job_id \<mapsto> set_columns row))"

definition start_download :: "(nat \<rightharpoonup> DownloadJob) \<Rightarrow> nat \<Rightarrow> (nat \<rightharpoonup> DownloadJob)" where
  "start_download table job_id =
     update_job table job_id (\<lambda>row. row\<lparr>status := ''downloading'', progress := Fin 0\<rparr>)"

definition job_line :: "(nat \<rightharpoonup> DownloadJob) \<Rightarrow> nat \<Rightarrow> string \<Rightarrow> (nat \<rightharpoonup> DownloadJob)" where
  "job_line table job_id line =
     (if sublist ''[download]'' line \<and> sublist ''%'' line
      then (case job_percentage (split line) of
              Some percentage \<Rightarrow> update_job table job_id (\<lambda>row. row\<lparr>progress := percentage\<rparr>)
            | None \<Rightarrow> table)
      else table)"

definition last_lines :: "nat \<Rightarrow> 'a list \<Rightarrow> 'a list" where
  \<comment> \<open>\<open>xs[-n:]\<close> for a positive \<open>n\<close>\<close>
  "last_lines n xs = drop (length xs - n) xs"

definition finish_download ::
  "(nat \<rightharpoonup> DownloadJob) \<Rightarrow> nat \<Rightarrow> nat \<Rightarrow> string list \<Rightarrow> int \<Rightarrow> (nat \<rightharpoonup> DownloadJob) \<times> bool" where
  "finish_download table now job_id output_lines returncode =
     (if returncode = 0
      then (update_job table job_id
              (\<lambda>row. row\<lparr>status := ''completed'', progress := Fin 100, completed_at := Some now\<rparr>),
            True)
      else (let error_msg = join [CHR 0x0A] (last_lines 10 output_lines)
            in (update_job table job_id
                  (\<lambda>row. row\<lparr>status := ''failed'', error_message := Some error_msg,
                             completed_at := Some now\<rparr>),
                False)))"

definition fail_download ::
  "(nat \<rightharpoonup> DownloadJob) \<Rightarrow> nat \<Rightarrow> nat \<Rightarrow> string \<Rightarrow> (nat \<rightharpoonup> DownloadJob) \<times> bool" where
  \<comment> \<open>the \<open>except Exception\<close> branch, with \<open>str(e)\<close>\<close>
  "fail_download table now job_id e =
     (update_job table job_id
        (\<lambda>row. row\<lparr>status := ''failed'', error_message := Some e, completed_at := Some now\<rparr>),
      False)"

definition download_with_progress ::
  "(nat \<rightharpoonup> DownloadJob) \<Rightarrow> nat \<Rightarrow> nat \<Rightarrow> process \<Rightarrow> (nat \<rightharpoonup> DownloadJob) \<times> bool" where
  "download_with_progress table now job_id p =
     (let started = start_download table job_id
      in case p of
           LaunchFailure e \<Rightarrow> fail_download started now job_id e
         | Exits lines returncode \<Rightarrow>
             finish_download (foldl (\<lambda>t line. job_line t job_id line) started lines) now job_id
               (map strip lines) returncode)"

subsection \<open>Queue and worker pool\<close>

text \<open>
  \<open>executor_queue\<close> and \<open>executor_running\<close> are the state of the
  \<open>ThreadPoolExecutor(max_workers)\<close>: the submitted calls that wait, and the calls that a
  worker thread is running.  The executor starts a waiting call only while fewer than
  \<open>max_workers\<close> calls are running.  \<open>futures_done\<close> holds the jobs whose call has
  returned.  Jobs are created with the default status \<open>pending\<close>.  The attributes
  \<open>download_queue\<close> and \<open>active_downloads\<close> of the downloader are the fields
  \<open>job_download_queue\<close> and \<open>job_active_downloads\<close>.
\<close>

record downloader =
  max_workers :: nat
  job_download_queue :: "(DownloadJob \<times> nat) list"
  job_active_downloads :: "nat set"
  executor_queue :: "nat list"
  executor_running :: "nat set"
  futures_done :: "nat set"
  db :: "nat \<rightharpoonup> DownloadJob"
  lastrowid :: nat

definition initial_downloader :: "nat \<Rightarrow> downloader" where
  "initial_downloader w =
     \<lparr>max_workers = w, job_download_queue = [], job_active_downloads = {}, executor_queue = [],
      executor_running = {}, futures_done = {}, db = Map.empty, lastrowid = 0\<rparr>"

inductive downloader_step :: "downloader \<Rightarrow> downloader \<Rightarrow> bool" where
  add_download:
    "status job = ''pending'' \<Longrightarrow> job_id = Suc (lastrowid d) \<Longrightarrow>
     downloader_step d
       (d\<lparr>db := (db d)(job_id \<mapsto> job), lastrowid := job_id,
          job_download_queue := job_download_queue d @ [(job, job_id)]\<rparr>)"
| process_queue:
    "job_download_queue d = (job, job_id) # rest \<Longrightarrow>
     downloader_step d
       (d\<lparr>job_download_queue := rest, executor_queue := executor_queue d @ [job_id],
          job_active_downloads := insert job_id (job_active_downloads d) - futures_done d\<rparr>)"
| worker_start:
    "executor_queue d = job_id # rest \<Longrightarrow> card (executor_running d) < max_workers d \<Longrightarrow>
     downloader_step d
       (d\<lparr>executor_queue := rest, executor_running := insert job_id (executor_running d),
          db := start_download (db d) job_id\<rparr>)"
| worker_line:
    "job_id \<in> executor_running d \<Longrightarrow>
     downloader_step d (d\<lparr>db := job_line (db d) job_id line\<rparr>)"
| worker_exit:
    "job_id \<in> executor_running d \<Longrightarrow>
     downloader_step d
       (d\<lparr>db := fst (finish_download (db d) now job_id output_lines returncode),
          executor_running := executor_running d - {job_id},
          futures_done := insert job_id (futures_done d)\<rparr>)"
| worker_exception:
    "job_id \<in> executor_running d \<Longrightarrow>
     downloader_step d
       (d\<lparr>db := fst (fail_download (db d) now job_id e),
          executor_running := executor_running d - {job_id},
          futures_done := insert job_id (futures_done d)\<rparr>)"

inductive downloader_reachable :: "nat \<Rightarrow> downloader \<Rightarrow> bool" where
  start: "downloader_reachable w (initial_downloader w)"
| step: "downloader_reachable w d \<Longrightarrow> downloader_step d d' \<Longrightarrow> downloader_reachable w d'"

definition job_is_downloading :: "downloader \<Rightarrow> nat \<Rightarrow> bool" where
  "job_is_downloading d job_id =
     (case db d job_id of None \<Rightarrow> False | Some row \<Rightarrow> status row = ''downloading'')"

record pool_status =
  queue_size :: nat
  active_downloads_count :: nat
  pool_capacity :: nat

definition job_get_queue_status :: "downloader \<Rightarrow> pool_status" where
  \<comment> \<open>\<open>AdvancedYouTubeDownloader.get_queue_status\<close>\<close>
  "job_get_queue_status d =
     \<lparr>queue_size = length (job_download_queue d),
      active_downloads_count = card (job_active_downloads d),
      pool_capacity = max_workers d\<rparr>"

section \<open>Playlist script: \<open>download_video\<close> of \<open>download_playlist.py\<close>\<close>

text \<open>
  The script takes a URL or a video id with an output directory, a resolution, a video
  format and an optional frame rate; it has no job configuration and no audio-only mode.
  The parameters carry a prime where the source's name is a field of \<open>DownloadJob\<close>.
\<close>

definition playlist_fps_filter :: "int option \<Rightarrow> string" where
  \<comment> \<open>\<open>f"[fps={fps}]" if fps else ""\<close>\<close>
  "playlist_fps_filter fps' = if_int fps' (\<lambda>i. ''[fps='' @ str_int i @ '']'')"

definition format_string :: "string \<Rightarrow> string \<Rightarrow> int option \<Rightarrow> string" where
  "format_string resolution' video_format fps' =
     ''bestvideo[height<='' @ resolution' @ '']'' @ playlist_fps_filter fps'
       @ ''[ext='' @ video_format @ '']+bestaudio[ext=m4a]/''
     @ ''bestvideo[height<='' @ resolution' @ '']'' @ playlist_fps_filter fps'
       @ ''+bestaudio[ext=m4a]/''
     @ ''bestvideo[height<='' @ resolution' @ '']'' @ ''[ext='' @ video_format
       @ '']+bestaudio[ext=m4a]/''
     @ ''bestvideo[height<='' @ resolution' @ '']+bestaudio[ext=m4a]/''
     @ ''best[height<='' @ resolution' @ '']'' @ playlist_fps_filter fps' @ ''/''
     @ ''best[height<='' @ resolution' @ '']''"

definition download_video_command ::
  "string \<Rightarrow> string \<Rightarrow> string \<Rightarrow> string \<Rightarrow> int option \<Rightarrow> bool \<Rightarrow> string list" where
  "download_video_command video_url_or_id output_dir' resolution' video_format fps' verbose =
     (let video_url =
        (if sublist ''://'' video_url_or_id then video_url_or_id
         else ''https://www.youtube.com/watch?v='' @ video_url_or_id)
      in [''yt-dlp'', ''-f'', format_string resolution' video_format fps',
          ''-o'', os_path_join output_dir' ''%(title)s.%(ext)s'',
          ''--merge-output-format'', video_format]
         @ [''--no-playlist'']
         @ (if \<not> verbose then [''--quiet'', ''--progress''] else [])
         @ [video_url])"


section \<open>Download records and the retry handler\<close>

datatype DownloadStatus =
  PENDING | QUEUED | DOWNLOADING | PROCESSING | COMPLETED | FAILED | CANCELLED | PAUSED

text \<open>
  The columns of \<open>Download\<close> that the retry handler reads or writes, with the URL and
  the priority; the handler leaves every other column as it is.  The field \<open>dl_k\<close> is the
  column \<open>k\<close>.
\<close>

record Download =
  dl_url :: string
  dl_status :: DownloadStatus
  dl_progress :: pyfloat
  dl_error_message :: "string option"
  dl_priority :: int
  dl_retry_count :: int
  dl_max_retries :: int
  dl_updated_at :: nat

datatype HTTPException = HTTPException nat string

definition retry_download ::
  "(nat \<rightharpoonup> Download) \<Rightarrow> service \<Rightarrow> nat \<Rightarrow> nat
     \<Rightarrow> HTTPException + (nat \<rightharpoonup> Download) \<times> service" where
  \<comment> \<open>the last argument is \<open>datetime.utcnow()\<close>; the background task queues the job
      after the commit\<close>
  "retry_download table s download_id now =
     (case table download_id of
        None \<Rightarrow> Inl (HTTPException 404 ''Download not found'')
      | Some download \<Rightarrow>
          if dl_status download \<notin> set [FAILED, CANCELLED]
          then Inl (HTTPException 400 ''Can only retry failed or cancelled downloads'')
          else Inr (table(download_id \<mapsto>
                      download\<lparr>dl_status := PENDING, dl_progress := Fin 0,
                               dl_error_message := None,
                               dl_retry_count := dl_retry_count download + 1,
                               dl_updated_at := now\<rparr>),
                    fst (queue_download s download_id)))"

section \<open>Reading a run\<close>

text \<open>
  The snapshot that a progress update publishes, and the one that ends a failed or a
  cancelled run.
\<close>

definition progress_snapshot :: "nat \<Rightarrow> pyfloat \<Rightarrow> snapshot" where
  "progress_snapshot now v =
     \<lparr>sn_status = ''downloading'', sn_updated_at = now, sn_progress = Some v,
      sn_error_message = None, sn_completed_at = None, sn_started_at = Some now\<rparr>"

definition terminal_snapshot :: "nat \<Rightarrow> string \<Rightarrow> string option \<Rightarrow> snapshot" where
  "terminal_snapshot now st detail =
     \<lparr>sn_status = st, sn_updated_at = now, sn_progress = Some (Fin 0),
      sn_error_message = detail, sn_completed_at = None, sn_started_at = None\<rparr>"

definition reported_percentage :: "string \<Rightarrow> pyfloat option" where
  \<comment> \<open>what a line of output reports: the first percentage token of a tagged line\<close>
  "reported_percentage line =
     (if sublist ''[download]'' (strip line)
      then (case find percentage_token (split (strip line)) of
              None \<Rightarrow> None
            | Some part \<Rightarrow> py_float (without_percent part))
      else None)"

definition published_by :: "service \<Rightarrow> service \<Rightarrow> (nat \<times> snapshot) list" where
  \<comment> \<open>the snapshots set between an earlier state and a later one\<close>
  "published_by s s' = drop (length (status_log s)) (status_log s')"

definition ends_in_failure :: "nat \<times> snapshot \<Rightarrow> bool" where
  "ends_in_failure e = (sn_status (snd e) = ''failed'' \<or> sn_status (snd e) = ''cancelled'')"

definition has_zero_progress :: "nat \<times> snapshot \<Rightarrow> bool" where
  "has_zero_progress e = (sn_progress (snd e) = Some (Fin 0))"

text \<open>Lines of output as the external tool writes them.\<close>

definition progress_line :: string where
  "progress_line = ''[download]  45.2% of 10.00MiB at 1.20MiB/s ETA 00:05''"

definition chatter_line :: string where
  "chatter_line = ''[download] Destination: video.mp4''"

definition untagged_line :: string where
  "untagged_line = ''[ffmpeg] 45.2% at 1.20MiB/s''"

definition half_line :: string where
  "half_line = ''[download]  50.0% of 10.00MiB''"

definition tenth_line :: string where
  "tenth_line = ''[download]  10.0% of 5.00MiB''"

definition error_line :: string where
  "error_line = ''ERROR: Video unavailable''"

definition completed_snapshot :: "nat \<Rightarrow> snapshot" where
  "completed_snapshot now =
     \<lparr>sn_status = ''completed'', sn_updated_at = now, sn_progress = Some (Fin 100),
      sn_error_message = None, sn_completed_at = Some now, sn_started_at = None\<rparr>"

definition zero_on_failure :: "nat \<times> snapshot \<Rightarrow> bool" where
  \<comment> \<open>a snapshot with status \<open>failed\<close> or \<open>cancelled\<close> has progress \<open>0.0\<close>\<close>
  "zero_on_failure e = (if ends_in_failure e then has_zero_progress e else True)"

text \<open>Download records for the retry handler.\<close>

definition failed_download :: Download where
  "failed_download =
     \<lparr>dl_url = ''https://youtu.be/v'', dl_status = FAILED, dl_progress = Fin 40,
      dl_error_message = Some ''ERROR: Video unavailable'', dl_priority = 0, dl_retry_count = 1,
      dl_max_retries = 3, dl_updated_at = 5\<rparr>"

definition exhausted_download :: Download where
  "exhausted_download = failed_download\<lparr>dl_retry_count := 3\<rparr>"

definition completed_download :: Download where
  "completed_download =
     failed_download\<lparr>dl_status := COMPLETED, dl_progress := Fin 100, dl_error_message := None\<rparr>"

section \<open>Reading the argument vector\<close>

text \<open>
  The two flags of the audio-extraction and remux rules, and the text values that each
  builder copies into the argument vector as they are: the codec, the container, the joined
  subtitle languages and the URL.
\<close>

definition is_flag :: "string \<Rightarrow> bool" where
  "is_flag x = (x = ''--extract-audio'' \<or> x = ''--remux-video'')"

definition cfg_values :: "config \<Rightarrow> string list" where
  "cfg_values c =
     [get_default (cfg_audio_format c) ''mp3'', get_default (cfg_format c) ''mp4'',
      join '','' (get_default (cfg_subtitle_languages c) [''en''])]
     @ (case cfg_url c of None \<Rightarrow> [] | Some u \<Rightarrow> [u])"

definition job_values :: "DownloadJob \<Rightarrow> string list" where
  "job_values job = [audio_format job, format job, join '','' (subtitle_langs job), url job]"

text \<open>
  The external tool reads a format selector as alternatives separated by \<open>/\<close>, tried in
  order: the first is the preferred selection, those that follow are the fallbacks.
\<close>

definition selector_alternatives :: "string \<Rightarrow> string list" where
  "selector_alternatives sel = split_on (\<lambda>c. c = CHR ''/'') sel"

text \<open>Two concrete requests, with the argument vectors they produce.\<close>

definition scenario_b :: config where
  "scenario_b = \<lparr>cfg_url = Some ''https://youtu.be/v'', cfg_output_directory = None,
     cfg_audio_only = False, cfg_quality = Some ''720'', cfg_fps = None, cfg_extract_audio = False,
     cfg_audio_format = None, cfg_format = Some ''mp4'', cfg_include_subtitles = False,
     cfg_subtitle_languages = None, cfg_auto_subtitles = False, cfg_include_thumbnail = False,
     cfg_include_metadata = None, cfg_start_time = None, cfg_end_time = None,
     cfg_playlist_start = None, cfg_playlist_end = None\<rparr>"

definition scenario_b_argv :: "string list" where
  "scenario_b_argv =
     [''yt-dlp'', ''-o'', ''downloads/%(title)s.%(ext)s'', ''-f'',
      ''bestvideo[height<=720]+bestaudio/best[height<=720]'', ''--remux-video'', ''mp4'',
      ''--write-info-json'', ''--write-description'', ''--embed-chapters'', ''--ignore-errors'',
      ''--no-warnings'', ''--progress'', ''--newline'', ''https://youtu.be/v'']"

definition audio_job :: DownloadJob where
  "audio_job = \<lparr>url = ''https://youtu.be/a'', output_dir = ''music'', resolution = ''1080'',
     fps = Some 60, format = ''mkv'', audio_only = False, extract_audio = True,
     audio_format = ''opus'', subtitles = True, auto_subtitles = False,
     subtitle_langs = [''en'', ''de''], thumbnail = False, metadata = True, start_time = None,
     end_time = Some ''00:01:00'', speed = None, playlist_start = Some 2, playlist_end = None,
     status = ''pending'', progress = Fin 0, file_path = None, error_message = None,
     created_at = 0, completed_at = None\<rparr>"

definition audio_job_argv :: "string list" where
  "audio_job_argv =
     [''yt-dlp'', ''-o'', ''music/%(title)s.%(ext)s'', ''-f'',
      ''bestvideo[height<=1080][fps<=60]+bestaudio/best[height<=1080]'',
      ''--extract-audio'', ''--audio-format'', ''opus'', ''--write-subs'', ''--sub-langs'', ''en,de'',
      ''--write-info-json'', ''--write-description'', ''--external-downloader'', ''ffmpeg'',
      ''--external-downloader-args'', ''-to 00:01:00'', ''--playlist-start'', ''2'',
      ''--embed-chapters'', ''--ignore-errors'', ''--no-warnings'', ''--progress'', ''--newline'',
      ''https://youtu.be/a'']"

text \<open>The request of scenario B with a frame rate, and the job above with frame rate 0.\<close>

definition scenario_b_fps :: config where
  "scenario_b_fps = scenario_b\<lparr>cfg_fps := Some 30\<rparr>"

definition scenario_b_fps_argv :: "string list" where
  "scenario_b_fps_argv =
     [''yt-dlp'', ''-o'', ''downloads/%(title)s.%(ext)s'', ''-f'',
      ''bestvideo[height<=720][fps<=30]+bestaudio/best[height<=720]'', ''--remux-video'', ''mp4'',
      ''--write-info-json'', ''--write-description'', ''--embed-chapters'', ''--ignore-errors'',
      ''--no-warnings'', ''--progress'', ''--newline'', ''https://youtu.be/v'']"

definition zero_fps_job :: DownloadJob where
  "zero_fps_job = audio_job\<lparr>fps := Some 0\<rparr>"

section \<open>Reading the schedulers\<close>

text \<open>
  The pool keeps its bound: the workers that run are at most \<open>max_workers\<close>, and a row is
  in status \<open>downloading\<close> only while a worker runs its job.
\<close>

definition pool_invariant :: "nat \<Rightarrow> downloader \<Rightarrow> bool" where
  "pool_invariant w d =
     (max_workers d = w \<and> finite (executor_running d) \<and> card (executor_running d) \<le> w
      \<and> {job_id. job_is_downloading d job_id} \<subseteq> executor_running d)"

text \<open>
  A pool of one worker after two jobs were added and submitted and the first was started.
\<close>

definition busy_downloader :: downloader where
  "busy_downloader =
     \<lparr>max_workers = 1, job_download_queue = [], job_active_downloads = {1, 2},
      executor_queue = [2], executor_running = {1}, futures_done = {},
      db = [1 \<mapsto> audio_job\<lparr>status := ''downloading'', progress := Fin 0\<rparr>, 2 \<mapsto> audio_job],
      lastrowid = 2\<rparr>"

text \<open>Two tasks of the service that run side by side.\<close>

definition two_tasks :: "event list" where
  "two_tasks = [Spawned 1, Spawned 2, Output 1 half_line, Output 2 tenth_line]"

section \<open>Properties of the Command Builder\<close>

lemma str_nat_digits: "set (str_nat n) \<subseteq> set ''0123456789''"
proof (induction n rule: str_nat.induct)
  case (1 n)
  have d: "digit_char k \<in> set ''0123456789''" for k
    unfolding digit_char_def by (rule nth_mem) simp
  show ?case
  proof (cases "n < 10")
    case True
    then show ?thesis using d by (subst str_nat.simps) simp
  next
    case False
    then show ?thesis using d 1 by (subst str_nat.simps) simp
  qed
qed

lemma str_nat_nonempty: "str_nat n \<noteq> []"
  by (subst str_nat.simps) simp

lemma str_int_not_flag: "\<not> prefix ''--'' (str_int i)"
proof
  assume p: "prefix ''--'' (str_int i)"
  show False
  proof (cases "i < 0")
    case True
    with p have "prefix ''-'' (str_nat (nat (- i)))" by (simp add: str_int_def)
    then have "CHR ''-'' \<in> set (str_nat (nat (- i)))" by (auto simp: prefix_def)
    with str_nat_digits show False by fastforce
  next
    case False
    with p have "prefix ''--'' (str_nat (nat i))" by (simp add: str_int_def)
    then have "CHR ''-'' \<in> set (str_nat (nat i))" by (auto simp: prefix_def)
    with str_nat_digits show False by fastforce
  qed
qed

lemma last_join: "x \<noteq> [] \<Longrightarrow> join sep (xs @ [x]) \<noteq> [] \<and> last (join sep (xs @ [x])) = last x"
proof (induction xs)
  case Nil
  then show ?case by simp
next
  case (Cons a xs)
  then show ?case by (cases xs) auto
qed

lemma last_output_template: "last (output_template d) = CHR ''s''"
  using last_join [of "''%(title)s.%(ext)s''" "''/''" "path_parts d"]
  by (simp add: output_template_def)

lemma last_os_path_join: "last (os_path_join a ''%(title)s.%(ext)s'') = CHR ''s''"
  by (simp add: os_path_join_def)

lemma is_flag_last: "is_flag x \<Longrightarrow> last x = CHR ''o''"
  by (auto simp: is_flag_def)

lemma is_flag_prefix: "is_flag x \<Longrightarrow> prefix ''--'' x"
  by (auto simp: is_flag_def)

lemma not_flag_template: "\<not> is_flag (output_template d)"
  using is_flag_last [of "output_template d"] by (auto simp: last_output_template)

lemma not_flag_os_path_join: "\<not> is_flag (os_path_join a ''%(title)s.%(ext)s'')"
  using is_flag_last [of "os_path_join a ''%(title)s.%(ext)s''"] by (auto simp: last_os_path_join)

lemma not_flag_str_int: "\<not> is_flag (str_int i)"
  using is_flag_prefix [of "str_int i"] str_int_not_flag by blast

lemma not_flag_cmd_format: "x \<in> set (cmd_format c) \<Longrightarrow> \<not> is_flag x"
  by (auto simp: cmd_format_def format_str_def is_flag_def split: if_splits)

lemma not_flag_cmd_subtitles:
  "\<not> is_flag (join '','' (get_default (cfg_subtitle_languages c) [''en''])) \<Longrightarrow>
   x \<in> set (cmd_subtitles c) \<Longrightarrow> \<not> is_flag x"
  by (auto simp: cmd_subtitles_def Let_def is_flag_def split: if_splits)

lemma not_flag_cmd_extras: "x \<in> set (cmd_extras c) \<Longrightarrow> \<not> is_flag x"
  by (auto simp: cmd_extras_def is_flag_def split: if_splits)

lemma not_flag_cmd_time_range: "x \<in> set (cmd_time_range c) \<Longrightarrow> \<not> is_flag x"
  by (auto simp: cmd_time_range_def if_str_def is_flag_def split: if_splits option.splits)

lemma not_flag_cmd_playlist: "x \<in> set (cmd_playlist c) \<Longrightarrow> \<not> is_flag x"
  using not_flag_str_int
  by (auto simp: cmd_playlist_def if_int_def split: if_splits option.splits)
    (auto simp: is_flag_def)

lemma not_flag_additional: "x \<in> set additional_options \<Longrightarrow> \<not> is_flag x"
  by (auto simp: additional_options_def is_flag_def)

lemmas not_flag_segments =
  not_flag_cmd_format not_flag_cmd_subtitles not_flag_cmd_extras not_flag_cmd_time_range
  not_flag_cmd_playlist not_flag_additional

lemma service_flag_membership:
  assumes b: "build_download_command c = Inr argv"
    and v: "\<forall>x \<in> set (cfg_values c). \<not> is_flag x"
    and f: "is_flag x"
  shows "x \<in> set argv \<longleftrightarrow> x \<in> set (cmd_extract c) \<or> x \<in> set (cmd_remux c)"
proof -
  obtain u where u: "cfg_url c = Some u"
    using b by (auto simp: build_download_command_def split: option.splits)
  have argv: "set argv = {''yt-dlp'', ''-o'', output_template (get_default (cfg_output_directory c) ''downloads''), u}
      \<union> set (cmd_format c) \<union> set (cmd_extract c) \<union> set (cmd_remux c) \<union> set (cmd_subtitles c)
      \<union> set (cmd_extras c) \<union> set (cmd_time_range c) \<union> set (cmd_playlist c) \<union> set additional_options"
    using b u by (auto simp: build_download_command_def)
  have nu: "\<not> is_flag u" and nl: "\<not> is_flag (join '','' (get_default (cfg_subtitle_languages c) [''en'']))"
    using v u by (simp_all add: cfg_values_def)
  have "x \<noteq> ''yt-dlp''" "x \<noteq> ''-o''" using f by (auto simp: is_flag_def)
  moreover have "x \<noteq> output_template (get_default (cfg_output_directory c) ''downloads'')"
    using f not_flag_template by blast
  moreover have "x \<noteq> u" using f nu by blast
  moreover have "x \<notin> set (cmd_format c)" "x \<notin> set (cmd_subtitles c)" "x \<notin> set (cmd_extras c)"
    "x \<notin> set (cmd_time_range c)" "x \<notin> set (cmd_playlist c)" "x \<notin> set additional_options"
    using f nl not_flag_segments by blast+
  ultimately show ?thesis unfolding argv by blast
qed

lemma not_flag_job_cmd_format: "x \<in> set (job_cmd_format job) \<Longrightarrow> \<not> is_flag x"
  by (auto simp: job_cmd_format_def job_format_str_def is_flag_def split: if_splits)

lemma not_flag_job_cmd_subtitles:
  "\<not> is_flag (join '','' (subtitle_langs job)) \<Longrightarrow> x \<in> set (job_cmd_subtitles job) \<Longrightarrow> \<not> is_flag x"
  by (auto simp: job_cmd_subtitles_def is_flag_def split: if_splits)

lemma not_flag_job_cmd_extras: "x \<in> set (job_cmd_extras job) \<Longrightarrow> \<not> is_flag x"
  by (auto simp: job_cmd_extras_def is_flag_def split: if_splits)

lemma not_flag_job_cmd_time_range: "x \<in> set (job_cmd_time_range job) \<Longrightarrow> \<not> is_flag x"
  by (auto simp: job_cmd_time_range_def if_str_def is_flag_def split: if_splits option.splits)

lemma not_flag_job_cmd_playlist: "x \<in> set (job_cmd_playlist job) \<Longrightarrow> \<not> is_flag x"
  using not_flag_str_int
  by (auto simp: job_cmd_playlist_def if_int_def split: if_splits option.splits)
    (auto simp: is_flag_def)

lemma not_flag_job_cmd_speed: "x \<in> set (job_cmd_speed fs job) \<Longrightarrow> \<not> is_flag x"
  by (auto simp: job_cmd_speed_def is_flag_def split: if_splits option.splits)

lemmas not_flag_job_segments =
  not_flag_job_cmd_format not_flag_job_cmd_subtitles not_flag_job_cmd_extras
  not_flag_job_cmd_time_range not_flag_job_cmd_playlist not_flag_job_cmd_speed not_flag_additional

lemma job_flag_membership:
  assumes v: "\<forall>x \<in> set (job_values job). \<not> is_flag x"
    and f: "is_flag x"
  shows "x \<in> set (build_command fs job) \<longleftrightarrow> x \<in> set (job_cmd_extract job) \<or> x \<in> set (job_cmd_remux job)"
proof -
  have argv: "set (build_command fs job) =
      {''yt-dlp'', ''-o'', os_path_join (output_dir job) ''%(title)s.%(ext)s'', url job}
      \<union> set (job_cmd_format job) \<union> set (job_cmd_extract job) \<union> set (job_cmd_remux job)
      \<union> set (job_cmd_subtitles job) \<union> set (job_cmd_extras job) \<union> set (job_cmd_time_range job)
      \<union> set (job_cmd_playlist job) \<union> set (job_cmd_speed fs job) \<union> set additional_options"
    by (auto simp: build_command_def)
  have nu: "\<not> is_flag (url job)" and nl: "\<not> is_flag (join '','' (subtitle_langs job))"
    using v by (simp_all add: job_values_def)
  have "x \<noteq> ''yt-dlp''" "x \<noteq> ''-o''" using f by (auto simp: is_flag_def)
  moreover have "x \<noteq> os_path_join (output_dir job) ''%(title)s.%(ext)s''"
    using f not_flag_os_path_join by blast
  moreover have "x \<noteq> url job" using f nu by blast
  moreover have "x \<notin> set (job_cmd_format job)" "x \<notin> set (job_cmd_subtitles job)"
    "x \<notin> set (job_cmd_extras job)" "x \<notin> set (job_cmd_time_range job)"
    "x \<notin> set (job_cmd_playlist job)" "x \<notin> set (job_cmd_speed fs job)"
    "x \<notin> set additional_options"
    using f nl not_flag_job_segments by blast+
  ultimately show ?thesis unfolding argv by blast
qed

lemma extract_segment:
  "\<forall>x \<in> set (cfg_values c). \<not> is_flag x \<Longrightarrow>
   (''--extract-audio'' \<in> set (cmd_extract c) \<or> ''--extract-audio'' \<in> set (cmd_remux c)) = cfg_extract_audio c"
  by (auto simp: cmd_extract_def cmd_remux_def cfg_values_def is_flag_def)

lemma remux_segment:
  "\<forall>x \<in> set (cfg_values c). \<not> is_flag x \<Longrightarrow>
   (''--remux-video'' \<in> set (cmd_extract c) \<or> ''--remux-video'' \<in> set (cmd_remux c))
     = (\<not> cfg_audio_only c \<and> \<not> cfg_extract_audio c)"
  by (auto simp: cmd_extract_def cmd_remux_def cfg_values_def is_flag_def)

lemma job_extract_segment:
  "\<forall>x \<in> set (job_values job). \<not> is_flag x \<Longrightarrow>
   (''--extract-audio'' \<in> set (job_cmd_extract job) \<or> ''--extract-audio'' \<in> set (job_cmd_remux job))
     = extract_audio job"
  by (auto simp: job_cmd_extract_def job_cmd_remux_def job_values_def is_flag_def)

lemma job_remux_segment:
  "\<forall>x \<in> set (job_values job). \<not> is_flag x \<Longrightarrow>
   (''--remux-video'' \<in> set (job_cmd_extract job) \<or> ''--remux-video'' \<in> set (job_cmd_remux job))
     = (\<not> audio_only job \<and> \<not> extract_audio job)"
  by (auto simp: job_cmd_extract_def job_cmd_remux_def job_values_def is_flag_def)

lemma sublist_mid: "sublist xs (ps @ xs @ ss)"
  by (auto simp: sublist_def)

lemma service_segments:
  assumes "build_download_command c = Inr argv"
  shows "sublist (cmd_format c) argv" "sublist (cmd_extract c) argv" "sublist (cmd_remux c) argv"
proof -
  obtain u where u: "cfg_url c = Some u"
    using assms by (auto simp: build_download_command_def split: option.splits)
  let ?t = "output_template (get_default (cfg_output_directory c) ''downloads'')"
  let ?rest = "cmd_subtitles c @ cmd_extras c @ cmd_time_range c @ cmd_playlist c @ additional_options @ [u]"
  have a: "argv = [''yt-dlp'', ''-o'', ?t] @ cmd_format c @ (cmd_extract c @ cmd_remux c @ ?rest)"
    using assms u by (simp add: build_download_command_def)
  show "sublist (cmd_format c) argv" unfolding a by (rule sublist_mid)
  have b: "argv = ([''yt-dlp'', ''-o'', ?t] @ cmd_format c) @ cmd_extract c @ (cmd_remux c @ ?rest)"
    using a by simp
  show "sublist (cmd_extract c) argv" unfolding b by (rule sublist_mid)
  have d: "argv = ([''yt-dlp'', ''-o'', ?t] @ cmd_format c @ cmd_extract c) @ cmd_remux c @ ?rest"
    using a by simp
  show "sublist (cmd_remux c) argv" unfolding d by (rule sublist_mid)
qed

lemma job_segments:
  "sublist (job_cmd_format job) (build_command fs job)"
  "sublist (job_cmd_extract job) (build_command fs job)"
  "sublist (job_cmd_remux job) (build_command fs job)"
proof -
  let ?t = "os_path_join (output_dir job) ''%(title)s.%(ext)s''"
  let ?rest = "job_cmd_subtitles job @ job_cmd_extras job @ job_cmd_time_range job
     @ job_cmd_playlist job @ job_cmd_speed fs job @ additional_options @ [url job]"
  have a: "build_command fs job = [''yt-dlp'', ''-o'', ?t] @ job_cmd_format job
      @ (job_cmd_extract job @ job_cmd_remux job @ ?rest)"
    by (simp add: build_command_def)
  show "sublist (job_cmd_format job) (build_command fs job)" unfolding a by (rule sublist_mid)
  have b: "build_command fs job = ([''yt-dlp'', ''-o'', ?t] @ job_cmd_format job)
      @ job_cmd_extract job @ (job_cmd_remux job @ ?rest)"
    using a by simp
  show "sublist (job_cmd_extract job) (build_command fs job)" unfolding b by (rule sublist_mid)
  have d: "build_command fs job = ([''yt-dlp'', ''-o'', ?t] @ job_cmd_format job @ job_cmd_extract job)
      @ job_cmd_remux job @ ?rest"
    using a by simp
  show "sublist (job_cmd_remux job) (build_command fs job)" unfolding d by (rule sublist_mid)
qed

lemma split_on_no_sep: "\<forall>x \<in> set xs. \<not> p x \<Longrightarrow> split_on p xs = [xs]"
  by (induction xs) auto

lemma split_on_append: "\<forall>x \<in> set xs. \<not> p x \<Longrightarrow> p c \<Longrightarrow> split_on p (xs @ c # ys) = xs # split_on p ys"
  by (induction xs) auto

lemma str_int_no_slash: "CHR ''/'' \<notin> set (str_int i)"
  using str_nat_digits [of "nat i"] str_nat_digits [of "nat (- i)"]
  by (auto simp: str_int_def)

lemma fps_filter_no_slash: "CHR ''/'' \<notin> set (fps_filter F)"
  using str_int_no_slash by (auto simp: fps_filter_def if_int_def split: option.splits)

lemma fps_filter_cases:
  "fps_filter None = []" "fps_filter (Some 0) = []"
  "f \<noteq> 0 \<Longrightarrow> fps_filter (Some f) = ''[fps<='' @ str_int f @ '']''"
  by (simp_all add: fps_filter_def if_int_def)

lemma format_str_alternatives:
  assumes "CHR ''/'' \<notin> set q"
  shows "selector_alternatives (format_str q F)
    = [''bestvideo[height<='' @ q @ '']'' @ fps_filter F @ ''+bestaudio'',
       ''best[height<='' @ q @ '']'']"
proof -
  let ?first = "''bestvideo[height<='' @ q @ '']'' @ fps_filter F @ ''+bestaudio''"
  let ?second = "''best[height<='' @ q @ '']''"
  have p: "\<forall>x \<in> set ?first. \<not> x = CHR ''/''"
    using assms fps_filter_no_slash [of F] by auto
  have f: "\<forall>x \<in> set ?second. \<not> x = CHR ''/''"
    using assms by auto
  have "format_str q F = ?first @ CHR ''/'' # ?second"
    by (simp add: format_str_def)
  then show ?thesis
    unfolding selector_alternatives_def
    using split_on_append [of ?first "\<lambda>c. c = CHR ''/''" "CHR ''/''" ?second, OF p]
      split_on_no_sep [of ?second "\<lambda>c. c = CHR ''/''", OF f]
    by simp
qed

lemma job_format_str_eq: "job_format_str job = format_str (resolution job) (fps job)"
  by (simp add: job_format_str_def format_str_def)

lemma str_nat_2: "str_nat 2 = ''2''" "str_nat 60 = ''60''"
  by (simp_all add: str_nat.simps digit_char_def)

lemma scenario_b_build: "build_download_command scenario_b = Inr scenario_b_argv"
  by (simp add: scenario_b_def scenario_b_argv_def build_download_command_def cmd_format_def
      format_str_def fps_filter_def if_int_def if_str_def get_default_def cmd_extract_def
      cmd_remux_def cmd_subtitles_def cmd_extras_def cmd_time_range_def cmd_playlist_def
      additional_options_def truthy_str_def output_template_def path_root_def path_parts_def)

lemma audio_job_build: "build_command fs audio_job = audio_job_argv"
  by (simp add: audio_job_def audio_job_argv_def build_command_def job_cmd_format_def
      job_format_str_def fps_filter_def if_int_def if_str_def job_cmd_extract_def
      job_cmd_remux_def job_cmd_subtitles_def job_cmd_extras_def job_cmd_time_range_def
      job_cmd_playlist_def job_cmd_speed_def additional_options_def truthy_str_def
      os_path_join_def str_int_def str_nat_2 suffix_to_prefix)

text \<open>
  The playlist script asks for six alternatives; the first and the third name the
  container, and the frame rate is matched exactly rather than bounded.
\<close>

lemma playlist_fps_filter_no_slash: "CHR ''/'' \<notin> set (playlist_fps_filter F)"
  using str_int_no_slash by (auto simp: playlist_fps_filter_def if_int_def split: option.splits)

lemma format_string_alternatives:
  assumes "CHR ''/'' \<notin> set r" "CHR ''/'' \<notin> set vf"
  shows "selector_alternatives (format_string r vf F)
    = [''bestvideo[height<='' @ r @ '']'' @ playlist_fps_filter F @ ''[ext='' @ vf @ '']+bestaudio[ext=m4a]'',
       ''bestvideo[height<='' @ r @ '']'' @ playlist_fps_filter F @ ''+bestaudio[ext=m4a]'',
       ''bestvideo[height<='' @ r @ ''][ext='' @ vf @ '']+bestaudio[ext=m4a]'',
       ''bestvideo[height<='' @ r @ '']+bestaudio[ext=m4a]'',
       ''best[height<='' @ r @ '']'' @ playlist_fps_filter F,
       ''best[height<='' @ r @ '']'']"
proof -
  let ?p = "\<lambda>c. c = CHR ''/''"
  let ?a1 = "''bestvideo[height<='' @ r @ '']'' @ playlist_fps_filter F @ ''[ext='' @ vf @ '']+bestaudio[ext=m4a]''"
  let ?a2 = "''bestvideo[height<='' @ r @ '']'' @ playlist_fps_filter F @ ''+bestaudio[ext=m4a]''"
  let ?a3 = "''bestvideo[height<='' @ r @ ''][ext='' @ vf @ '']+bestaudio[ext=m4a]''"
  let ?a4 = "''bestvideo[height<='' @ r @ '']+bestaudio[ext=m4a]''"
  let ?a5 = "''best[height<='' @ r @ '']'' @ playlist_fps_filter F"
  let ?a6 = "''best[height<='' @ r @ '']''"
  have n: "\<forall>x \<in> set ?a1. \<not> ?p x" "\<forall>x \<in> set ?a2. \<not> ?p x" "\<forall>x \<in> set ?a3. \<not> ?p x"
    "\<forall>x \<in> set ?a4. \<not> ?p x" "\<forall>x \<in> set ?a5. \<not> ?p x" "\<forall>x \<in> set ?a6. \<not> ?p x"
    using assms playlist_fps_filter_no_slash [of F] by auto
  have e: "format_string r vf F
      = ?a1 @ CHR ''/'' # ?a2 @ CHR ''/'' # ?a3 @ CHR ''/'' # ?a4 @ CHR ''/'' # ?a5 @ CHR ''/'' # ?a6"
    by (simp add: format_string_def)
  have 6: "split_on ?p ?a6 = [?a6]" by (rule split_on_no_sep [OF n(6)])
  have 5: "split_on ?p (?a5 @ CHR ''/'' # ?a6) = [?a5, ?a6]"
    using split_on_append [of ?a5 ?p "CHR ''/''" ?a6, OF n(5)] 6 by simp
  have 4: "split_on ?p (?a4 @ CHR ''/'' # ?a5 @ CHR ''/'' # ?a6) = [?a4, ?a5, ?a6]"
    using split_on_append [of ?a4 ?p "CHR ''/''" "?a5 @ CHR ''/'' # ?a6", OF n(4)] 5 by simp
  have 3: "split_on ?p (?a3 @ CHR ''/'' # ?a4 @ CHR ''/'' # ?a5 @ CHR ''/'' # ?a6) = [?a3, ?a4, ?a5, ?a6]"
    using split_on_append [of ?a3 ?p "CHR ''/''" "?a4 @ CHR ''/'' # ?a5 @ CHR ''/'' # ?a6", OF n(3)] 4
    by simp
  have 2: "split_on ?p (?a2 @ CHR ''/'' # ?a3 @ CHR ''/'' # ?a4 @ CHR ''/'' # ?a5 @ CHR ''/'' # ?a6)
      = [?a2, ?a3, ?a4, ?a5, ?a6]"
    using split_on_append [of ?a2 ?p "CHR ''/''"
        "?a3 @ CHR ''/'' # ?a4 @ CHR ''/'' # ?a5 @ CHR ''/'' # ?a6", OF n(2)] 3
    by simp
  have 1: "split_on ?p (?a1 @ CHR ''/'' # ?a2 @ CHR ''/'' # ?a3 @ CHR ''/'' # ?a4 @ CHR ''/'' # ?a5 @ CHR ''/'' # ?a6)
      = [?a1, ?a2, ?a3, ?a4, ?a5, ?a6]"
    using split_on_append [of ?a1 ?p "CHR ''/''"
        "?a2 @ CHR ''/'' # ?a3 @ CHR ''/'' # ?a4 @ CHR ''/'' # ?a5 @ CHR ''/'' # ?a6", OF n(1)] 2
    by simp
  show ?thesis unfolding selector_alternatives_def e by (rule 1)
qed

lemma str_nat_30: "str_nat 30 = ''30''"
  by (simp add: str_nat.simps digit_char_def)

lemma scenario_b_fps_build: "build_download_command scenario_b_fps = Inr scenario_b_fps_argv"
  by (simp add: scenario_b_fps_def scenario_b_def scenario_b_fps_argv_def
      build_download_command_def cmd_format_def format_str_def fps_filter_def if_int_def
      if_str_def get_default_def cmd_extract_def cmd_remux_def cmd_subtitles_def cmd_extras_def
      cmd_time_range_def cmd_playlist_def additional_options_def truthy_str_def
      output_template_def path_root_def path_parts_def str_int_def str_nat_30)

lemma eval_selector_scenario_b_fps:
  "selector_alternatives ''bestvideo[height<=720][fps<=30]+bestaudio/best[height<=720]''
     = [''bestvideo[height<=720][fps<=30]+bestaudio'', ''best[height<=720]'']"
  "\<not> sublist ''ext'' ''bestvideo[height<=720][fps<=30]+bestaudio/best[height<=720]''"
  "\<not> sublist ''mp4'' ''bestvideo[height<=720][fps<=30]+bestaudio/best[height<=720]''"
  by code_simp+

text \<open>
  Claim C5, as the code has it.  An audio-only request puts \<open>-f bestaudio\<close> in the argument
  vector.  Any other request, of quality \<open>Q\<close> and optional frame rate \<open>F\<close>, puts \<open>-f\<close>
  followed by the selector \<open>bestvideo[height<=Q]\<close>, then \<open>[fps<=F]\<close> exactly when \<open>F\<close> is
  given and is not 0, then \<open>+bestaudio/best[height<=Q]\<close>.  Its alternatives are two: the
  video stream bounded in height, with the frame-rate filter, paired with the best audio
  stream; and one fallback, which keeps the height bound and has no frame-rate filter.
  No alternative names a format or a container; the container is asked for with
  \<open>--remux-video\<close>.  Both builders agree.
\<close>

theorem format_selection:
  assumes "build_download_command c = Inr argv"
  shows "(cfg_audio_only c \<longrightarrow> sublist [''-f'', ''bestaudio''] argv)
    \<and> (\<not> cfg_audio_only c \<longrightarrow>
         sublist [''-f'', format_str (get_default (cfg_quality c) ''1080'') (cfg_fps c)] argv)
    \<and> (audio_only job \<longrightarrow> sublist [''-f'', ''bestaudio''] (build_command fs job))
    \<and> (\<not> audio_only job \<longrightarrow>
         sublist [''-f'', format_str (resolution job) (fps job)] (build_command fs job))
    \<and> format_str q F
        = ''bestvideo[height<='' @ q @ '']'' @ fps_filter F @ ''+bestaudio/best[height<='' @ q @ '']''
    \<and> (CHR ''/'' \<notin> set q \<longrightarrow>
         selector_alternatives (format_str q F)
           = [''bestvideo[height<='' @ q @ '']'' @ fps_filter F @ ''+bestaudio'',
              ''best[height<='' @ q @ '']''])
    \<and> fps_filter None = [] \<and> fps_filter (Some 0) = []
    \<and> (f \<noteq> 0 \<longrightarrow> fps_filter (Some f) = ''[fps<='' @ str_int f @ '']'')"
proof -
  have s: "sublist (cmd_format c) argv" by (rule service_segments(1) [OF assms])
  have j: "sublist (job_cmd_format job) (build_command fs job)" by (rule job_segments(1))
  have 1: "cfg_audio_only c \<Longrightarrow> sublist [''-f'', ''bestaudio''] argv"
    using s by (simp add: cmd_format_def)
  have 2: "\<not> cfg_audio_only c \<Longrightarrow>
         sublist [''-f'', format_str (get_default (cfg_quality c) ''1080'') (cfg_fps c)] argv"
    using s by (simp add: cmd_format_def)
  have 3: "audio_only job \<Longrightarrow> sublist [''-f'', ''bestaudio''] (build_command fs job)"
    using j by (simp add: job_cmd_format_def)
  have 4: "\<not> audio_only job \<Longrightarrow>
         sublist [''-f'', format_str (resolution job) (fps job)] (build_command fs job)"
    using j by (simp add: job_cmd_format_def job_format_str_eq)
  have 5: "format_str q F
        = ''bestvideo[height<='' @ q @ '']'' @ fps_filter F @ ''+bestaudio/best[height<='' @ q @ '']''"
    by (simp add: format_str_def)
  have 6: "CHR ''/'' \<notin> set q \<Longrightarrow>
         selector_alternatives (format_str q F)
           = [''bestvideo[height<='' @ q @ '']'' @ fps_filter F @ ''+bestaudio'',
              ''best[height<='' @ q @ '']'']"
    by (rule format_str_alternatives)
  have 7: "f \<noteq> 0 \<Longrightarrow> fps_filter (Some f) = ''[fps<='' @ str_int f @ '']''"
    by (rule fps_filter_cases(3))
  show ?thesis using 1 2 3 4 5 6 7 fps_filter_cases(1,2) by blast
qed

theorem format_selection_witness:
  "build_download_command scenario_b = Inr scenario_b_argv
   \<and> sublist [''-f'', ''bestvideo[height<=720]+bestaudio/best[height<=720]''] scenario_b_argv
   \<and> sublist [''-f'', ''bestvideo[height<=1080][fps<=60]+bestaudio/best[height<=1080]'']
        (build_command (\<lambda>v. ''1.5'') audio_job)
   \<and> selector_alternatives (format_str ''720'' (Some 30))
       = [''bestvideo[height<=720][fps<=30]+bestaudio'', ''best[height<=720]'']"
proof -
  have b: "build_download_command scenario_b = Inr scenario_b_argv" by (rule scenario_b_build)
  show ?thesis
    using b format_selection [OF b, of audio_job "\<lambda>v. ''1.5''" "''720''" "Some 30" 30]
    by (simp add: scenario_b_def audio_job_def get_default_def format_str_def fps_filter_def
        if_int_def str_int_def str_nat_2 str_nat_30)
qed

theorem single_fallback_counterexample:
  "build_download_command scenario_b_fps = Inr scenario_b_fps_argv
   \<and> sublist [''-f'', ''bestvideo[height<=720][fps<=30]+bestaudio/best[height<=720]'']
        scenario_b_fps_argv
   \<and> selector_alternatives ''bestvideo[height<=720][fps<=30]+bestaudio/best[height<=720]''
       = [''bestvideo[height<=720][fps<=30]+bestaudio'', ''best[height<=720]'']
   \<and> \<not> sublist ''ext'' ''bestvideo[height<=720][fps<=30]+bestaudio/best[height<=720]''
   \<and> \<not> sublist ''mp4'' ''bestvideo[height<=720][fps<=30]+bestaudio/best[height<=720]''
   \<and> fps zero_fps_job = Some 0
   \<and> sublist [''-f'', ''bestvideo[height<=1080]+bestaudio/best[height<=1080]'']
        (build_command (\<lambda>v. ''1.5'') zero_fps_job)"
proof -
  have z: "sublist (job_cmd_format zero_fps_job) (build_command (\<lambda>v. ''1.5'') zero_fps_job)"
    by (rule job_segments(1))
  have c: "job_cmd_format zero_fps_job
      = [''-f'', ''bestvideo[height<=1080]+bestaudio/best[height<=1080]'']"
    by (simp add: job_cmd_format_def job_format_str_def fps_filter_def if_int_def zero_fps_job_def
        audio_job_def)
  have s: "sublist [''-f'', ''bestvideo[height<=720][fps<=30]+bestaudio/best[height<=720]'']
        scenario_b_fps_argv"
    unfolding scenario_b_fps_argv_def by code_simp
  show ?thesis
    using z c s scenario_b_fps_build eval_selector_scenario_b_fps
    by (simp add: zero_fps_job_def)
qed

text \<open>
  Claim C6.  For a request whose text values are not themselves one of the two flags, the
  argument vector contains \<open>--extract-audio\<close>, followed by \<open>--audio-format\<close> and the
  codec, exactly when audio extraction is requested; it contains \<open>--remux-video\<close>,
  followed by the container, exactly when the request is neither audio-only nor an audio
  extraction; and it never contains both flags.  Both builders agree.
\<close>

theorem extraction_and_remux_flags:
  assumes "build_download_command c = Inr argv"
    and "\<forall>x \<in> set (cfg_values c). \<not> is_flag x"
    and "\<forall>x \<in> set (job_values job). \<not> is_flag x"
  shows "((''--extract-audio'' \<in> set argv) = cfg_extract_audio c)
    \<and> (cfg_extract_audio c \<longrightarrow>
         sublist [''--extract-audio'', ''--audio-format'', get_default (cfg_audio_format c) ''mp3''] argv)
    \<and> ((''--remux-video'' \<in> set argv) = (\<not> cfg_audio_only c \<and> \<not> cfg_extract_audio c))
    \<and> (\<not> cfg_audio_only c \<and> \<not> cfg_extract_audio c \<longrightarrow>
         sublist [''--remux-video'', get_default (cfg_format c) ''mp4''] argv)
    \<and> \<not> (''--extract-audio'' \<in> set argv \<and> ''--remux-video'' \<in> set argv)
    \<and> ((''--extract-audio'' \<in> set (build_command fs job)) = extract_audio job)
    \<and> (extract_audio job \<longrightarrow>
         sublist [''--extract-audio'', ''--audio-format'', audio_format job] (build_command fs job))
    \<and> ((''--remux-video'' \<in> set (build_command fs job)) = (\<not> audio_only job \<and> \<not> extract_audio job))
    \<and> (\<not> audio_only job \<and> \<not> extract_audio job \<longrightarrow>
         sublist [''--remux-video'', format job] (build_command fs job))
    \<and> \<not> (''--extract-audio'' \<in> set (build_command fs job)
         \<and> ''--remux-video'' \<in> set (build_command fs job))"
proof -
  have e: "(''--extract-audio'' \<in> set argv) = cfg_extract_audio c"
    using service_flag_membership [OF assms(1,2), of "''--extract-audio''"] extract_segment [OF assms(2)]
    by (simp add: is_flag_def)
  have r: "(''--remux-video'' \<in> set argv) = (\<not> cfg_audio_only c \<and> \<not> cfg_extract_audio c)"
    using service_flag_membership [OF assms(1,2), of "''--remux-video''"] remux_segment [OF assms(2)]
    by (simp add: is_flag_def)
  have je: "(''--extract-audio'' \<in> set (build_command fs job)) = extract_audio job"
    using job_flag_membership [OF assms(3), of "''--extract-audio''" fs] job_extract_segment [OF assms(3)]
    by (simp add: is_flag_def)
  have jr: "(''--remux-video'' \<in> set (build_command fs job)) = (\<not> audio_only job \<and> \<not> extract_audio job)"
    using job_flag_membership [OF assms(3), of "''--remux-video''" fs] job_remux_segment [OF assms(3)]
    by (simp add: is_flag_def)
  have se: "cfg_extract_audio c \<Longrightarrow>
      sublist [''--extract-audio'', ''--audio-format'', get_default (cfg_audio_format c) ''mp3''] argv"
    using service_segments(2) [OF assms(1)] by (simp add: cmd_extract_def)
  have sr: "\<not> cfg_audio_only c \<and> \<not> cfg_extract_audio c \<Longrightarrow>
      sublist [''--remux-video'', get_default (cfg_format c) ''mp4''] argv"
    using service_segments(3) [OF assms(1)] by (simp add: cmd_remux_def)
  have jse: "extract_audio job \<Longrightarrow>
      sublist [''--extract-audio'', ''--audio-format'', audio_format job] (build_command fs job)"
    using job_segments(2) [of job fs] by (simp add: job_cmd_extract_def)
  have jsr: "\<not> audio_only job \<and> \<not> extract_audio job \<Longrightarrow>
      sublist [''--remux-video'', format job] (build_command fs job)"
    using job_segments(3) [of job fs] by (simp add: job_cmd_remux_def)
  show ?thesis using e r je jr se sr jse jsr by blast
qed

theorem extraction_and_remux_flags_witness:
  "build_download_command scenario_b = Inr scenario_b_argv
   \<and> list_all (\<lambda>x. \<not> is_flag x) (cfg_values scenario_b)
   \<and> list_all (\<lambda>x. \<not> is_flag x) (job_values audio_job)
   \<and> ''--extract-audio'' \<notin> set scenario_b_argv
   \<and> sublist [''--remux-video'', ''mp4''] scenario_b_argv
   \<and> sublist [''--extract-audio'', ''--audio-format'', ''opus''] (build_command (\<lambda>v. ''1.5'') audio_job)
   \<and> ''--remux-video'' \<notin> set (build_command (\<lambda>v. ''1.5'') audio_job)"
proof -
  have b: "build_download_command scenario_b = Inr scenario_b_argv" by (rule scenario_b_build)
  have v: "\<forall>x \<in> set (cfg_values scenario_b). \<not> is_flag x"
    by (simp add: cfg_values_def scenario_b_def get_default_def is_flag_def)
  have j: "\<forall>x \<in> set (job_values audio_job). \<not> is_flag x"
    by (simp add: job_values_def audio_job_def is_flag_def)
  show ?thesis
    using b v j extraction_and_remux_flags [OF b v j, of "\<lambda>v. ''1.5''"]
    by (simp add: scenario_b_def audio_job_def get_default_def list_all_iff)
qed

section \<open>Properties of the Progress Parser\<close>

lemma not_digit_dot [simp]: "\<not> is_digit CHR ''.''"
  by (simp add: is_digit_def)

lemma not_digit_unit: "is_unit u \<Longrightarrow> \<not> is_digit u"
  by (auto simp: is_unit_def is_digit_def)

lemma takeWhile_digits_stop:
  "list_all P ds \<Longrightarrow> \<not> P c \<Longrightarrow> takeWhile P (ds @ c # rest) = ds"
  by (induction ds) auto

lemma dropWhile_digits_stop:
  "list_all P ds \<Longrightarrow> \<not> P c \<Longrightarrow> dropWhile P (ds @ c # rest) = c # rest"
  by (induction ds) auto

lemma takeWhile_all: "list_all P ds \<Longrightarrow> takeWhile P ds = ds"
  by (induction ds) auto

lemma dropWhile_all: "list_all P ds \<Longrightarrow> dropWhile P ds = []"
  by (induction ds) auto

lemma unit_at_token: "is_unit u \<Longrightarrow> unit_at g (u # ''iB/s'' @ post) = Some (g, u)"
  by (simp add: unit_at_def)

lemma match_speed_token:
  assumes "d1 \<noteq> []" "list_all is_digit d1" "list_all is_digit d2"
    and "dot = ''.'' \<or> dot = [] \<and> d2 = []" "is_unit u"
  shows "match_speed (d1 @ dot @ d2 @ u # ''iB/s'' @ post) = Some (d1 @ dot @ d2, u)"
proof (cases "dot = ''.''")
  case True
  have t: "takeWhile is_digit (d1 @ CHR ''.'' # d2 @ u # ''iB/s'' @ post) = d1"
    and d: "dropWhile is_digit (d1 @ CHR ''.'' # d2 @ u # ''iB/s'' @ post) = CHR ''.'' # d2 @ u # ''iB/s'' @ post"
    using assms(2) by (simp_all add: takeWhile_digits_stop dropWhile_digits_stop)
  have t2: "takeWhile is_digit (d2 @ u # ''iB/s'' @ post) = d2"
    and d2: "dropWhile is_digit (d2 @ u # ''iB/s'' @ post) = u # ''iB/s'' @ post"
    using assms(3,5) not_digit_unit by (simp_all add: takeWhile_digits_stop dropWhile_digits_stop)
  show ?thesis
    using True assms(1,5) t d t2 d2 unit_at_token [of u "d1 @ ''.'' @ d2" post]
    by (simp add: match_speed_def)
next
  case False
  then have e: "dot = []" "d2 = []" using assms(4) by auto
  have t: "takeWhile is_digit (d1 @ u # ''iB/s'' @ post) = d1"
    and d: "dropWhile is_digit (d1 @ u # ''iB/s'' @ post) = u # ''iB/s'' @ post"
    using assms(2,5) not_digit_unit by (simp_all add: takeWhile_digits_stop dropWhile_digits_stop)
  have nd: "u \<noteq> CHR ''.''" using assms(5) by (auto simp: is_unit_def)
  show ?thesis
    using e assms(1,5) t d nd unit_at_token [of u d1 post]
    by (simp add: match_speed_def)
qed

lemma unit_at_Some:
  "unit_at g r = Some (g', u) \<Longrightarrow> g' = g \<and> is_unit u \<and> (\<exists>post. r = u # ''iB/s'' @ post)"
  by (auto simp: unit_at_def prefix_def split: list.splits if_splits)

lemma list_all_takeWhile: "list_all P (takeWhile P xs)"
  by (induction xs) auto

lemma match_speed_sound:
  assumes "match_speed s = Some (g, u)"
  shows "\<exists>d1 d2 dot post. s = d1 @ dot @ d2 @ u # ''iB/s'' @ post \<and> g = d1 @ dot @ d2
     \<and> d1 \<noteq> [] \<and> list_all is_digit d1 \<and> list_all is_digit d2
     \<and> (dot = ''.'' \<or> dot = [] \<and> d2 = []) \<and> is_unit u"
proof -
  let ?d1 = "takeWhile is_digit s" and ?r1 = "dropWhile is_digit s"
  have s: "s = ?d1 @ ?r1" by simp
  have n: "?d1 \<noteq> []" using assms by (auto simp: match_speed_def Let_def split: if_splits)
  show ?thesis
  proof (cases "prefix ''.'' ?r1")
    case True
    then obtain t where r1: "?r1 = CHR ''.'' # t" by (auto simp: prefix_def)
    let ?d2 = "takeWhile is_digit t" and ?r3 = "dropWhile is_digit t"
    have "unit_at (?d1 @ ''.'' @ ?d2) ?r3 = Some (g, u)"
      using assms n True r1 by (simp add: match_speed_def Let_def)
    from unit_at_Some [OF this] obtain post where
      g: "g = ?d1 @ ''.'' @ ?d2" and u: "is_unit u" and r3: "?r3 = u # ''iB/s'' @ post" by auto
    have "t = ?d2 @ ?r3" by simp
    with r3 have "t = ?d2 @ u # ''iB/s'' @ post" by simp
    with s r1 have "s = ?d1 @ ''.'' @ ?d2 @ u # ''iB/s'' @ post" by simp
    with g n u show ?thesis using list_all_takeWhile by blast
  next
    case False
    have "unit_at ?d1 ?r1 = Some (g, u)"
      using assms n False by (simp add: match_speed_def Let_def)
    from unit_at_Some [OF this] obtain post where
      g: "g = ?d1" and u: "is_unit u" and r1: "?r1 = u # ''iB/s'' @ post" by auto
    from s r1 have "s = ?d1 @ [] @ [] @ u # ''iB/s'' @ post" by simp
    moreover have "g = ?d1 @ [] @ []" using g by simp
    moreover have "list_all is_digit ([]::string)" by simp
    ultimately show ?thesis using n u list_all_takeWhile [of is_digit s] by blast
  qed
qed

lemma starts_with_speed_token_iff: "starts_with_speed_token s \<longleftrightarrow> match_speed s \<noteq> None"
proof
  assume "starts_with_speed_token s"
  then obtain d1 d2 dot u post where
    "s = d1 @ dot @ d2 @ u # ''iB/s'' @ post" "d1 \<noteq> []" "list_all is_digit d1"
    "list_all is_digit d2" "dot = ''.'' \<or> dot = [] \<and> d2 = []" "is_unit u"
    unfolding starts_with_speed_token_def by blast
  then show "match_speed s \<noteq> None"
    using match_speed_token [of d1 d2 dot u post] by simp
next
  assume "match_speed s \<noteq> None"
  then obtain g u where "match_speed s = Some (g, u)" by auto
  from match_speed_sound [OF this] show "starts_with_speed_token s"
    unfolding starts_with_speed_token_def by blast
qed

lemma match_speed_Nil [simp]: "match_speed [] = None"
  by (simp add: match_speed_def)

lemma search_speed_leftmost:
  "search_speed line = Some m \<Longrightarrow>
   \<exists>pre s. line = pre @ s \<and> match_speed s = Some m \<and> (\<forall>k < length pre. match_speed (drop k line) = None)"
proof (induction line)
  case Nil
  then show ?case by simp
next
  case (Cons c cs)
  show ?case
  proof (cases "match_speed (c # cs)")
    case (Some m')
    with Cons.prems have "m' = m" by simp
    with Some have "c # cs = [] @ (c # cs) \<and> match_speed (c # cs) = Some m
        \<and> (\<forall>k < length ([]::string). match_speed (drop k (c # cs)) = None)" by simp
    then show ?thesis by blast
  next
    case None
    with Cons.prems have "search_speed cs = Some m" by simp
    from Cons.IH [OF this] obtain pre s where
      p: "cs = pre @ s" "match_speed s = Some m" "\<forall>k < length pre. match_speed (drop k cs) = None"
      by blast
    have "\<forall>k < length (c # pre). match_speed (drop k (c # cs)) = None"
    proof (intro allI impI)
      fix k assume k: "k < length (c # pre)"
      show "match_speed (drop k (c # cs)) = None"
      proof (cases k)
        case 0
        then show ?thesis using None by simp
      next
        case (Suc j)
        then show ?thesis using k p(3) by simp
      qed
    qed
    with p(1,2) have "c # cs = (c # pre) @ s \<and> match_speed s = Some m
        \<and> (\<forall>k < length (c # pre). match_speed (drop k (c # cs)) = None)" by simp
    then show ?thesis by blast
  qed
qed

lemma search_speed_complete:
  "match_speed s \<noteq> None \<Longrightarrow> search_speed (pre @ s) \<noteq> None"
proof (induction pre)
  case Nil
  then show ?case by (cases s) auto
next
  case (Cons c pre)
  then show ?case by (cases "match_speed (c # pre @ s)") auto
qed

lemma contains_speed_token_iff: "contains_speed_token line \<longleftrightarrow> search_speed line \<noteq> None"
proof
  assume "contains_speed_token line"
  then obtain pre s where "line = pre @ s" "match_speed s \<noteq> None"
    unfolding contains_speed_token_def starts_with_speed_token_iff by blast
  then show "search_speed line \<noteq> None"
    using search_speed_complete [of s pre] by simp
next
  assume "search_speed line \<noteq> None"
  then obtain m where "search_speed line = Some m" by auto
  from search_speed_leftmost [OF this] obtain pre s where
    "line = pre @ s" "match_speed s = Some m" by blast
  then have "line = pre @ s \<and> match_speed s \<noteq> None" by simp
  then show "contains_speed_token line"
    unfolding contains_speed_token_def starts_with_speed_token_iff by blast
qed

lemma digit_not_space: "is_digit c \<Longrightarrow> \<not> is_space c"
  by (auto simp: is_digit_def is_space_def)

lemma dot_not_space [simp]: "\<not> is_space CHR ''.''"
  by (simp add: is_space_def)

lemma strip_id: "s \<noteq> [] \<Longrightarrow> \<not> is_space (hd s) \<Longrightarrow> \<not> is_space (last s) \<Longrightarrow> strip s = s"
proof -
  assume a: "s \<noteq> []" "\<not> is_space (hd s)" "\<not> is_space (last s)"
  then have 1: "dropWhile is_space s = s" by (cases s) auto
  obtain x xs where r: "rev s = x # xs" using a(1) by (cases "rev s") auto
  have "x = last s" using r a(1) hd_rev [of s] by simp
  then have 2: "dropWhile is_space (rev s) = rev s" using a(3) unfolding r by simp
  show ?thesis by (simp add: strip_def 1 2)
qed

lemma digits_no_underscore: "list_all is_digit ds \<Longrightarrow> without_underscores ds = ds"
  by (induction ds) (auto simp: without_underscores_def is_digit_def)

lemma digits_are_dus: "list_all is_digit ds \<Longrightarrow> list_all is_digit_or_underscore ds"
  by (induction ds) (auto simp: is_digit_or_underscore_def)

lemma valid_digitpart_digits: "ds \<noteq> [] \<Longrightarrow> list_all is_digit ds \<Longrightarrow> valid_digitpart ds"
proof -
  assume a: "ds \<noteq> []" "list_all is_digit ds"
  have h: "is_digit (hd ds)" "is_digit (last ds)"
    using a by (simp_all add: list_all_iff)
  have "\<not> sublist ''__'' ds"
  proof
    assume "sublist ''__'' ds"
    then have "set ''__'' \<subseteq> set ds" by (rule set_mono_sublist)
    then have "is_digit CHR ''_''" using a(2) by (simp add: list_all_iff)
    then show False by (simp add: is_digit_def)
  qed
  with a h show ?thesis by (simp add: valid_digitpart_def digits_are_dus)
qed

lemma not_dus_dot [simp]: "\<not> is_digit_or_underscore CHR ''.''"
  by (simp add: is_digit_or_underscore_def is_digit_def)

lemma parse_number_group:
  assumes "d1 \<noteq> []" "list_all is_digit d1" "list_all is_digit d2"
    and "dot = ''.'' \<or> dot = [] \<and> d2 = []"
  shows "parse_number (d1 @ dot @ d2) = Some (decimal_value d1 d2)"
proof (cases "dot = ''.''")
  case True
  have ip: "takeWhile is_digit_or_underscore (d1 @ CHR ''.'' # d2) = d1"
    and r1: "dropWhile is_digit_or_underscore (d1 @ CHR ''.'' # d2) = CHR ''.'' # d2"
    using assms(2) by (simp_all add: takeWhile_digits_stop dropWhile_digits_stop digits_are_dus)
  have fp: "takeWhile is_digit_or_underscore d2 = d2" and r2: "dropWhile is_digit_or_underscore d2 = []"
    using assms(3) by (simp_all add: takeWhile_all dropWhile_all digits_are_dus)
  have v2: "d2 = [] \<or> valid_digitpart d2"
    using assms(3) valid_digitpart_digits by blast
  show ?thesis
    using True v2 assms(1) valid_digitpart_digits [OF assms(1,2)]
    by (simp add: parse_number_def parse_exponent_def scale10_def decimal_value_def
        ip r1 fp r2 digits_no_underscore [OF assms(2)] digits_no_underscore [OF assms(3)])
next
  case False
  then have e: "dot = []" "d2 = []" using assms(4) by auto
  have ip: "takeWhile is_digit_or_underscore d1 = d1" and r1: "dropWhile is_digit_or_underscore d1 = []"
    using assms(2) by (simp_all add: takeWhile_all dropWhile_all digits_are_dus)
  have z: "without_underscores [] = []" "digits_value [] = 0"
    by (simp_all add: without_underscores_def digits_value_def)
  show ?thesis
    using e assms(1) valid_digitpart_digits [OF assms(1,2)]
    by (simp add: parse_number_def parse_exponent_def scale10_def decimal_value_def
        ip r1 digits_no_underscore [OF assms(2)] z)
qed

lemma py_float_group:
  assumes "d1 \<noteq> []" "list_all is_digit d1" "list_all is_digit d2"
    and "dot = ''.'' \<or> dot = [] \<and> d2 = []"
  shows "py_float (d1 @ dot @ d2) = Some (Fin (decimal_value d1 d2))"
proof -
  let ?g = "d1 @ dot @ d2"
  obtain c cs where d1: "d1 = c # cs" using assms(1) by (cases d1) auto
  have c: "is_digit c" using assms(2) d1 by simp
  have hd: "hd ?g = c" using d1 by simp
  have "last ?g = CHR ''.'' \<or> is_digit (last ?g)"
    using assms by (auto simp: list_all_iff)
  then have ls: "\<not> is_space (last ?g)" using digit_not_space by auto
  have st: "strip ?g = ?g"
    using strip_id [of ?g] hd c digit_not_space ls d1 by simp
  have sg: "split_sign ?g = (False, ?g)"
    using d1 c by (auto simp: split_sign_def is_digit_def)
  have w: "\<not> is_word ''inf'' ''INF'' ?g" "\<not> is_word ''infinity'' ''INFINITY'' ?g"
    "\<not> is_word ''nan'' ''NAN'' ?g"
    using d1 c by (auto simp: is_word_def is_digit_def)
  show ?thesis
    using st sg w parse_number_group [OF assms] by (simp add: py_float_def)
qed

lemma multipliers_unit:
  "is_unit u \<Longrightarrow> multipliers u = (if u = CHR ''K'' then 1024 else if u = CHR ''M'' then 1024 ^ 2 else 1024 ^ 3)"
  by (auto simp: is_unit_def multipliers_def)

lemma extract_speed_None: "extract_speed line = None \<longleftrightarrow> search_speed line = None"
proof
  assume n: "extract_speed line = None"
  show "search_speed line = None"
  proof (rule ccontr)
    assume "search_speed line \<noteq> None"
    then obtain g u where m: "search_speed line = Some (g, u)" by auto
    from search_speed_leftmost [OF m] obtain pre s where "match_speed s = Some (g, u)" by blast
    from match_speed_sound [OF this] obtain d1 d2 dot where
      "g = d1 @ dot @ d2" "d1 \<noteq> []" "list_all is_digit d1" "list_all is_digit d2"
      "dot = ''.'' \<or> dot = [] \<and> d2 = []" by blast
    then have "py_float g = Some (Fin (decimal_value d1 d2))" using py_float_group by blast
    with m n show False by (simp add: extract_speed_def)
  qed
next
  assume "search_speed line = None"
  then show "extract_speed line = None" by (simp add: extract_speed_def)
qed

lemma extract_speed_token:
  assumes "contains_speed_token line"
  shows "\<exists>pre d1 dot d2 u post.
      line = pre @ d1 @ dot @ d2 @ u # ''iB/s'' @ post
      \<and> d1 \<noteq> [] \<and> list_all is_digit d1 \<and> list_all is_digit d2
      \<and> (dot = ''.'' \<or> dot = [] \<and> d2 = []) \<and> is_unit u
      \<and> (\<forall>k < length pre. \<not> starts_with_speed_token (drop k line))
      \<and> extract_speed line = Some (Fin (decimal_value d1 d2 * of_nat (multipliers u)))"
proof -
  from assms obtain g u where m: "search_speed line = Some (g, u)"
    unfolding contains_speed_token_iff by auto
  from search_speed_leftmost [OF m] obtain pre s where
    p: "line = pre @ s" "match_speed s = Some (g, u)"
       "\<forall>k < length pre. match_speed (drop k line) = None" by blast
  from match_speed_sound [OF p(2)] obtain d1 d2 dot post where
    t: "s = d1 @ dot @ d2 @ u # ''iB/s'' @ post" "g = d1 @ dot @ d2" "d1 \<noteq> []"
       "list_all is_digit d1" "list_all is_digit d2" "dot = ''.'' \<or> dot = [] \<and> d2 = []" "is_unit u"
    by blast
  have f: "py_float g = Some (Fin (decimal_value d1 d2))"
    using t py_float_group by blast
  have e: "extract_speed line = Some (Fin (decimal_value d1 d2 * of_nat (multipliers u)))"
    using m f by (simp add: extract_speed_def py_scale_def)
  have l: "\<forall>k < length pre. \<not> starts_with_speed_token (drop k line)"
    using p(3) by (simp add: starts_with_speed_token_iff)
  have "line = pre @ d1 @ dot @ d2 @ u # ''iB/s'' @ post" using p(1) t(1) by simp
  with t e l show ?thesis by blast
qed

lemma first_percentage_find:
  "first_percentage parts =
     (case find percentage_token parts of None \<Rightarrow> None | Some part \<Rightarrow> py_float (without_percent part))"
  by (induction parts) (auto simp: percentage_token_def split: option.splits)

lemma find_None_list_ex: "find P xs = None \<longleftrightarrow> \<not> list_ex P xs"
  by (induction xs) auto

lemma first_percentage_None:
  "\<not> contains_percentage_token line \<Longrightarrow> first_percentage (split line) = None"
  by (simp add: first_percentage_find contains_percentage_token_def find_None_list_ex [symmetric])

lemma parse_progress_untagged:
  "\<not> sublist ''[download]'' line \<Longrightarrow> parse_progress s download_id line = s"
  by (simp add: parse_progress_def)

lemma parse_progress_silent:
  assumes "\<not> contains_percentage_token line" "\<not> contains_speed_token line"
  shows "parse_progress s download_id line = s"
proof -
  have p: "first_percentage (split line) = None" using assms(1) by (rule first_percentage_None)
  have "search_speed line = None" using assms(2) contains_speed_token_iff [of line] by blast
  then have e: "extract_speed line = None" by (simp add: extract_speed_None)
  show ?thesis by (simp add: parse_progress_def p e)
qed

lemma split_on_subset: "f \<in> set (split_on p s) \<Longrightarrow> set f \<subseteq> set s"
proof (induction s arbitrary: f)
  case Nil
  then show ?case by simp
next
  case (Cons c cs)
  show ?case
  proof (cases "p c")
    case True
    with Cons show ?thesis by auto
  next
    case False
    show ?thesis
    proof (cases "split_on p cs")
      case Nil
      with False Cons.prems show ?thesis by simp
    next
      case (Cons g gs)
      with False Cons.prems have "f = c # g \<or> f \<in> set gs" by simp
      then show ?thesis
      proof
        assume "f = c # g"
        moreover have "set g \<subseteq> set cs" using Cons.IH [of g] Cons by simp
        ultimately show ?thesis by auto
      next
        assume "f \<in> set gs"
        then have "set f \<subseteq> set cs" using Cons.IH [of f] Cons by simp
        then show ?thesis by auto
      qed
    qed
  qed
qed

lemma split_subset: "part \<in> set (split line) \<Longrightarrow> set part \<subseteq> set line"
  using split_on_subset [of part is_space line] by (simp add: split_def)

lemma sublist_single: "sublist [c] s \<longleftrightarrow> c \<in> set s"
  by (induction s) (auto simp: sublist_Cons_right)

lemma percentage_token_percent:
  assumes "find percentage_token (split line) = Some part"
  shows "sublist ''%'' line" and "\<exists>v. py_float (without_percent part) = Some v"
proof -
  from assms have m: "part \<in> set (split line)" and t: "percentage_token part"
    by (auto simp: find_Some_iff)
  from t have "suffix ''%'' part" by (simp add: percentage_token_def)
  then have "CHR ''%'' \<in> set part" by (auto simp: suffix_def)
  with split_subset [OF m] show "sublist ''%'' line" by (auto simp: sublist_single)
  from t show "\<exists>v. py_float (without_percent part) = Some v"
    by (auto simp: percentage_token_def)
qed

lemma status_log_update_download_speed [simp]:
  "status_log (update_download_speed s download_id v) = status_log s"
  "download_status (update_download_speed s download_id v) = download_status s"
  "clock (update_download_speed s download_id v) = clock s"
  "active_downloads (update_download_speed s download_id v) = active_downloads s"
  by (simp_all add: update_download_speed_def)

lemma update_download_progress_log:
  "status_log (update_download_progress s download_id v)
     = status_log s @ [(download_id, progress_snapshot (clock s) v)]"
  "download_status (update_download_progress s download_id v)
     = (download_status s)(download_id \<mapsto> progress_snapshot (clock s) v)"
  "clock (update_download_progress s download_id v) = clock s"
  "active_downloads (update_download_progress s download_id v) = active_downloads s"
  by (simp_all add: update_download_progress_def update_download_status_def progress_snapshot_def
      truthy_str_def Let_def)

lemma parse_progress_log:
  "status_log (parse_progress s download_id line) =
     status_log s @
       (if sublist ''[download]'' line \<and> sublist ''%'' line
        then (case first_percentage (split line) of
                None \<Rightarrow> []
              | Some v \<Rightarrow> [(download_id, progress_snapshot (clock s) v)])
        else [])"
  by (auto simp: parse_progress_def Let_def update_download_progress_log split: option.splits)

lemma parse_progress_clock [simp]: "clock (parse_progress s download_id line) = clock s"
  by (auto simp: parse_progress_def Let_def update_download_progress_log split: option.splits)

lemma parse_progress_active [simp]:
  "active_downloads (parse_progress s download_id line) = active_downloads s"
  by (auto simp: parse_progress_def Let_def update_download_progress_log split: option.splits)

lemma eval_search_progress_line: "search_speed progress_line = Some (''1.20'', CHR ''M'')"
  by code_simp

lemma eval_float_speed: "py_float ''1.20'' = Some (Fin (6 / 5))"
  by code_simp

lemma eval_chatter_no_percentage: "\<not> contains_percentage_token chatter_line"
  by code_simp

lemma eval_chatter_no_speed: "search_speed chatter_line = None"
  by code_simp

lemma eval_untagged: "\<not> sublist ''[download]'' untagged_line"
  by code_simp

lemma eval_find_percentage: "find percentage_token (split progress_line) = Some ''45.2%''"
  by code_simp

lemma eval_float_percentage: "py_float (without_percent ''45.2%'') = Some (Fin (226 / 5))"
  by code_simp

lemma eval_untagged_percentage: "contains_percentage_token untagged_line"
  by code_simp

lemma eval_untagged_speed: "search_speed untagged_line = Some (''1.20'', CHR ''M'')"
  by code_simp

lemma eval_tagged: "sublist ''[download]'' progress_line"
  by code_simp

lemma eval_half_line: "reported_percentage half_line = Some (Fin 50)"
  by code_simp

lemma eval_tenth_line: "reported_percentage tenth_line = Some (Fin 10)"
  by code_simp

lemma eval_error_line: "reported_percentage error_line = None"
  by code_simp

lemma read_line_log:
  "status_log (read_line s download_id line)
     = status_log s @ (case reported_percentage line of
                         None \<Rightarrow> []
                       | Some v \<Rightarrow> [(download_id, progress_snapshot (clock s) v)])"
proof (cases "sublist ''[download]'' (strip line)")
  case False
  then show ?thesis
    by (simp add: read_line_def Let_def reported_percentage_def parse_progress_untagged)
next
  case True
  then have ne: "strip line \<noteq> []" by auto
  show ?thesis
  proof (cases "find percentage_token (split (strip line))")
    case None
    then have "first_percentage (split (strip line)) = None"
      by (simp add: first_percentage_find)
    with True None ne show ?thesis
      by (simp add: read_line_def Let_def reported_percentage_def parse_progress_log)
  next
    case (Some part)
    from percentage_token_percent [OF Some] obtain v where
      pc: "sublist ''%'' (strip line)" and v: "py_float (without_percent part) = Some v" by blast
    have "first_percentage (split (strip line)) = Some v"
      using Some v by (simp add: first_percentage_find)
    with True Some ne pc v show ?thesis
      by (simp add: read_line_def Let_def reported_percentage_def parse_progress_log)
  qed
qed

lemma read_line_clock [simp]: "clock (read_line s download_id line) = clock s"
  by (simp add: read_line_def Let_def)

lemma read_output_clock [simp]: "clock (read_output s download_id lines) = clock s"
  unfolding read_output_def by (induction lines arbitrary: s) simp_all

lemma read_output_log:
  "status_log (read_output s download_id lines)
     = status_log s
       @ map (\<lambda>v. (download_id, progress_snapshot (clock s) v))
           (List.map_filter reported_percentage lines)"
proof (induction lines arbitrary: s)
  case Nil
  then show ?case by (simp add: read_output_def List.map_filter_simps)
next
  case (Cons line lines)
  have "read_output s download_id (line # lines)
      = read_output (read_line s download_id line) download_id lines"
    by (simp add: read_output_def)
  then show ?case
    using Cons [of "read_line s download_id line"]
    by (simp add: read_line_log List.map_filter_simps split: option.splits)
qed

text \<open>
  Claim C7.  The parser is a total function of the line: a \<open>ValueError\<close> of \<open>float\<close> is a
  value that the handlers turn into "no update".  On a line that contains a transfer-rate
  token, \<open>_extract_speed\<close> returns the number of the leftmost token multiplied by 1024 for
  \<open>KiB/s\<close>, by 1024 squared for \<open>MiB/s\<close> and by 1024 cubed for \<open>GiB/s\<close>; on a line without
  one it returns nothing.  A line with neither a percentage token nor a transfer-rate token
  leaves the published state as it was.
\<close>

theorem speed_and_silent_lines:
  "(contains_speed_token line \<longrightarrow>
      (\<exists>pre d1 dot d2 u post.
         line = pre @ d1 @ dot @ d2 @ u # ''iB/s'' @ post
         \<and> d1 \<noteq> [] \<and> list_all is_digit d1 \<and> list_all is_digit d2
         \<and> (dot = ''.'' \<or> dot = [] \<and> d2 = []) \<and> is_unit u
         \<and> (\<forall>k < length pre. \<not> starts_with_speed_token (drop k line))
         \<and> extract_speed line
             = Some (Fin (decimal_value d1 d2
                 * (if u = CHR ''K'' then 1024 else if u = CHR ''M'' then 1024 ^ 2 else 1024 ^ 3)))))
   \<and> (\<not> contains_speed_token line \<longrightarrow> extract_speed line = None)
   \<and> (\<not> contains_percentage_token line \<and> \<not> contains_speed_token line \<longrightarrow>
        parse_progress s download_id line = s)"
proof (intro conjI impI)
  assume "contains_speed_token line"
  from extract_speed_token [OF this] obtain pre d1 dot d2 u post where
    t: "line = pre @ d1 @ dot @ d2 @ u # ''iB/s'' @ post" "d1 \<noteq> []" "list_all is_digit d1"
       "list_all is_digit d2" "dot = ''.'' \<or> dot = [] \<and> d2 = []" "is_unit u"
       "\<forall>k < length pre. \<not> starts_with_speed_token (drop k line)"
       "extract_speed line = Some (Fin (decimal_value d1 d2 * of_nat (multipliers u)))"
    by blast
  have "(of_nat (multipliers u) :: rat)
      = (if u = CHR ''K'' then 1024 else if u = CHR ''M'' then 1024 ^ 2 else 1024 ^ 3)"
    using multipliers_unit [OF t(6)] by simp
  with t(8) have "extract_speed line
      = Some (Fin (decimal_value d1 d2
          * (if u = CHR ''K'' then 1024 else if u = CHR ''M'' then 1024 ^ 2 else 1024 ^ 3)))"
    by simp
  with t show "\<exists>pre d1 dot d2 u post.
         line = pre @ d1 @ dot @ d2 @ u # ''iB/s'' @ post
         \<and> d1 \<noteq> [] \<and> list_all is_digit d1 \<and> list_all is_digit d2
         \<and> (dot = ''.'' \<or> dot = [] \<and> d2 = []) \<and> is_unit u
         \<and> (\<forall>k < length pre. \<not> starts_with_speed_token (drop k line))
         \<and> extract_speed line
             = Some (Fin (decimal_value d1 d2
                 * (if u = CHR ''K'' then 1024 else if u = CHR ''M'' then 1024 ^ 2 else 1024 ^ 3)))"
    by blast
next
  assume "\<not> contains_speed_token line"
  then have "search_speed line = None" using contains_speed_token_iff [of line] by blast
  then show "extract_speed line = None" by (simp add: extract_speed_None)
next
  assume "\<not> contains_percentage_token line \<and> \<not> contains_speed_token line"
  then show "parse_progress s download_id line = s"
    using parse_progress_silent by blast
qed

theorem speed_and_silent_lines_witness:
  "contains_speed_token progress_line
   \<and> extract_speed progress_line = Some (Fin (6291456 / 5))
   \<and> \<not> contains_percentage_token chatter_line \<and> \<not> contains_speed_token chatter_line
   \<and> parse_progress initial_service 1 chatter_line = initial_service"
proof -
  have c: "contains_speed_token progress_line"
    using eval_search_progress_line by (simp add: contains_speed_token_iff)
  have e: "extract_speed progress_line = Some (Fin (6291456 / 5))"
    using eval_search_progress_line eval_float_speed by (simp add: extract_speed_def py_scale_def multipliers_def)
  have n: "\<not> contains_speed_token chatter_line"
    using eval_chatter_no_speed by (simp add: contains_speed_token_iff)
  show ?thesis
    using c e eval_chatter_no_percentage n speed_and_silent_lines [of chatter_line initial_service 1] by simp
qed

text \<open>
  Claim C10.  A line without the tag \<open>[download]\<close> changes nothing, whatever percentage or
  speed it carries.  On a tagged line the progress published is the value of the first
  whitespace-delimited token that ends in \<open>%\<close> and parses as a float; when there is no
  such token, no progress is published.
\<close>

theorem tagged_lines_only:
  "(\<not> sublist ''[download]'' line \<longrightarrow> parse_progress s download_id line = s)
   \<and> (sublist ''[download]'' line \<longrightarrow>
        (case find percentage_token (split line) of
           None \<Rightarrow> status_log (parse_progress s download_id line) = status_log s
         | Some part \<Rightarrow>
             \<exists>v. py_float (without_percent part) = Some v
               \<and> status_log (parse_progress s download_id line)
                   = status_log s @ [(download_id, progress_snapshot (clock s) v)]))"
proof (intro conjI impI)
  assume "\<not> sublist ''[download]'' line"
  then show "parse_progress s download_id line = s" by (rule parse_progress_untagged)
next
  assume tag: "sublist ''[download]'' line"
  show "case find percentage_token (split line) of
           None \<Rightarrow> status_log (parse_progress s download_id line) = status_log s
         | Some part \<Rightarrow>
             \<exists>v. py_float (without_percent part) = Some v
               \<and> status_log (parse_progress s download_id line)
                   = status_log s @ [(download_id, progress_snapshot (clock s) v)]"
  proof (cases "find percentage_token (split line)")
    case None
    then have "first_percentage (split line) = None" by (simp add: first_percentage_find)
    with None show ?thesis by (simp add: parse_progress_log)
  next
    case (Some part)
    from percentage_token_percent [OF Some] obtain v where
      pc: "sublist ''%'' line" and v: "py_float (without_percent part) = Some v" by blast
    have "first_percentage (split line) = Some v" using Some v by (simp add: first_percentage_find)
    with Some tag pc v show ?thesis by (simp add: parse_progress_log)
  qed
qed

theorem tagged_lines_only_witness:
  "\<not> sublist ''[download]'' untagged_line
   \<and> contains_percentage_token untagged_line \<and> contains_speed_token untagged_line
   \<and> parse_progress initial_service 1 untagged_line = initial_service
   \<and> sublist ''[download]'' progress_line
   \<and> find percentage_token (split progress_line) = Some ''45.2%''
   \<and> status_log (parse_progress initial_service 1 progress_line)
       = [(1, progress_snapshot 0 (Fin (226 / 5)))]"
proof -
  have s: "contains_speed_token untagged_line"
    using eval_untagged_speed by (simp add: contains_speed_token_iff)
  have i: "status_log initial_service = []" "clock initial_service = 0"
    by (simp_all add: initial_service_def)
  show ?thesis
    using eval_untagged eval_untagged_percentage s eval_tagged eval_find_percentage eval_float_percentage i
      tagged_lines_only [of untagged_line initial_service 1]
      tagged_lines_only [of progress_line initial_service 1]
    by simp
qed

text \<open>
  Claim C8, as the code has it.  Within one run the service publishes, for each line of
  output and in the order of arrival, the percentage that the line reports, whatever the
  values published before: the published sequence is the reported one.  It is
  non-decreasing only when the reports of the tool are; a second file of the same job
  starts again from a low percentage.
\<close>

theorem published_progress_follows_the_tool:
  "published_by s (read_output s download_id lines)
     = map (\<lambda>v. (download_id, progress_snapshot (clock s) v))
         (List.map_filter reported_percentage lines)
   \<and> map (sn_progress \<circ> snd) (published_by s (read_output s download_id lines))
       = map Some (List.map_filter reported_percentage lines)"
  by (simp add: published_by_def read_output_log progress_snapshot_def comp_def)

theorem progress_decreases_counterexample:
  "map (sn_progress \<circ> snd) (status_log (read_output initial_service 1 [half_line, tenth_line]))
     = [Some (Fin 50), Some (Fin 10)]
   \<and> (10 :: rat) < 50"
proof -
  have "status_log initial_service = []" by (simp add: initial_service_def)
  then show ?thesis
    by (simp add: read_output_log List.map_filter_simps eval_half_line eval_tenth_line progress_snapshot_def)
qed

section \<open>Properties of the supervised run\<close>

lemma update_download_status_fields:
  "status_log (update_download_status s download_id st p e)
     = status_log s @ [(download_id, the (download_status (update_download_status s download_id st p e) download_id))]"
  "clock (update_download_status s download_id st p e) = clock s"
  "active_downloads (update_download_status s download_id st p e) = active_downloads s"
  by (simp_all add: update_download_status_def Let_def)

lemma update_failed:
  "download_status (update_download_status s download_id ''failed'' (Some (Fin 0)) e) download_id
     = Some (terminal_snapshot (clock s) ''failed'' (if truthy_str e then e else None))"
  by (simp add: update_download_status_def Let_def terminal_snapshot_def)

lemma update_cancelled:
  "download_status (update_download_status s download_id ''cancelled'' (Some (Fin 0)) None) download_id
     = Some (terminal_snapshot (clock s) ''cancelled'' None)"
  by (simp add: update_download_status_def Let_def terminal_snapshot_def truthy_str_def)

lemma update_completed:
  "download_status (update_download_status s download_id ''completed'' (Some (Fin 100)) None) download_id
     = Some (completed_snapshot (clock s))"
  by (simp add: update_download_status_def Let_def completed_snapshot_def truthy_str_def)

lemma register_task_fields [simp]:
  "status_log (register_task s download_id) = status_log s"
  "clock (register_task s download_id) = clock s"
  "download_status (register_task s download_id) = download_status s"
  by (simp_all add: register_task_def)

lemma unregister_task_fields [simp]:
  "status_log (unregister_task s download_id) = status_log s"
  "clock (unregister_task s download_id) = clock s"
  "download_status (unregister_task s download_id) = download_status s"
  "active_downloads (unregister_task s download_id) = active_downloads s - {download_id}"
  by (simp_all add: unregister_task_def)

lemma on_exit_status:
  "download_status (fst (on_exit s download_id returncode)) download_id
     = Some (if returncode = 0 then completed_snapshot (clock s)
             else terminal_snapshot (clock s) ''failed'' None)"
  by (simp add: on_exit_def Let_def update_failed update_completed truthy_str_def)

lemma on_exit_log:
  "status_log (fst (on_exit s download_id returncode))
     = status_log s @ [(download_id, if returncode = 0 then completed_snapshot (clock s)
                                      else terminal_snapshot (clock s) ''failed'' None)]"
  by (simp add: on_exit_def Let_def update_download_status_fields update_failed update_completed
      truthy_str_def)

lemma execute_download_exits_status:
  "download_status (fst (execute_download s download_id (Exits lines returncode))) download_id
     = Some (if returncode = 0 then completed_snapshot (clock s)
             else terminal_snapshot (clock s) ''failed'' None)"
  by (simp add: execute_download_def on_exit_status)

lemma execute_download_exits_log:
  "published_by s (fst (execute_download s download_id (Exits lines returncode)))
     = map (\<lambda>v. (download_id, progress_snapshot (clock s) v)) (List.map_filter reported_percentage lines)
       @ [(download_id, if returncode = 0 then completed_snapshot (clock s)
                         else terminal_snapshot (clock s) ''failed'' None)]"
  by (simp add: execute_download_def on_exit_log read_output_log published_by_def)

lemma execute_download_launch:
  "download_status (fst (execute_download s download_id (LaunchFailure e))) download_id
     = Some (terminal_snapshot (clock s) ''failed'' (if e = [] then None else Some e))"
  "published_by s (fst (execute_download s download_id (LaunchFailure e)))
     = [(download_id, terminal_snapshot (clock s) ''failed'' (if e = [] then None else Some e))]"
  by (simp_all add: execute_download_def update_failed update_download_status_fields published_by_def
      truthy_str_def)

lemma zero_on_failure_simps [simp]:
  "zero_on_failure (i, progress_snapshot now v)"
  "zero_on_failure (i, completed_snapshot now)"
  "zero_on_failure (i, terminal_snapshot now st d)"
  by (simp_all add: zero_on_failure_def ends_in_failure_def has_zero_progress_def
      progress_snapshot_def completed_snapshot_def terminal_snapshot_def)

lemma execute_download_zero_on_failure:
  "list_all zero_on_failure (published_by s (fst (execute_download s download_id p)))"
proof (cases p)
  case (LaunchFailure e)
  then show ?thesis by (simp add: execute_download_launch)
next
  case (Exits lines returncode)
  then show ?thesis by (simp add: execute_download_exits_log list_all_iff)
qed

lemma on_cancelled_Some:
  assumes "on_cancelled s download_id p = Some s'"
  shows "download_status s' download_id = Some (terminal_snapshot (clock s) ''cancelled'' None)"
    and "published_by s s' = [(download_id, terminal_snapshot (clock s) ''cancelled'' None)]"
    and "download_id \<notin> active_downloads s'"
  using assms
  by (auto simp: on_cancelled_def update_cancelled update_download_status_fields published_by_def
      split: option.splits)

lemma initial_service_fields [simp]:
  "status_log initial_service = []" "clock initial_service = 0"
  "active_downloads initial_service = {}" "download_queue initial_service = []"
  by (simp_all add: initial_service_def)

lemma published_by_initial [simp]: "published_by initial_service s = status_log s"
  by (simp add: published_by_def)

lemma eval_error_line_plain:
  "strip error_line = error_line" "\<not> sublist ''[download]'' error_line"
  by code_simp+

lemma update_job_existing: "table job_id = Some row \<Longrightarrow> update_job table job_id f = table(job_id \<mapsto> f row)"
  by (simp add: update_job_def)

lemma terminate_and_wait_None: "terminate_and_wait p = None \<longleftrightarrow> p = Alive None"
  by (auto simp: terminate_and_wait_def split: process_state.splits option.splits)

text \<open>
  Claim C9.  A run of the service that ends with status \<open>failed\<close>, after a non-zero exit
  code or a failure to launch, or with status \<open>cancelled\<close>, leaves under the key of the job
  a snapshot whose progress is \<open>0.0\<close>, whatever progress the run published before; and
  every snapshot of the run with one of these two statuses has progress \<open>0.0\<close>.
\<close>

theorem failure_resets_progress:
  "(returncode \<noteq> 0 \<longrightarrow>
      download_status (fst (execute_download s download_id (Exits lines returncode))) download_id
        = Some (terminal_snapshot (clock s) ''failed'' None))
   \<and> download_status (fst (execute_download s download_id (LaunchFailure e))) download_id
       = Some (terminal_snapshot (clock s) ''failed'' (if e = [] then None else Some e))
   \<and> (on_cancelled s download_id ps = Some s' \<longrightarrow>
        download_status s' download_id = Some (terminal_snapshot (clock s) ''cancelled'' None)
        \<and> list_all zero_on_failure (published_by s s'))
   \<and> list_all zero_on_failure (published_by s (fst (execute_download s download_id p)))
   \<and> sn_progress (terminal_snapshot now st detail) = Some (Fin 0)"
proof (intro conjI impI)
  assume "returncode \<noteq> 0"
  then show "download_status (fst (execute_download s download_id (Exits lines returncode))) download_id
        = Some (terminal_snapshot (clock s) ''failed'' None)"
    by (simp add: execute_download_exits_status)
next
  show "download_status (fst (execute_download s download_id (LaunchFailure e))) download_id
       = Some (terminal_snapshot (clock s) ''failed'' (if e = [] then None else Some e))"
    by (rule execute_download_launch(1))
next
  assume c: "on_cancelled s download_id ps = Some s'"
  show "download_status s' download_id = Some (terminal_snapshot (clock s) ''cancelled'' None)"
    by (rule on_cancelled_Some(1) [OF c])
  show "list_all zero_on_failure (published_by s s')"
    by (simp add: on_cancelled_Some(2) [OF c])
next
  show "list_all zero_on_failure (published_by s (fst (execute_download s download_id p)))"
    by (rule execute_download_zero_on_failure)
next
  show "sn_progress (terminal_snapshot now st detail) = Some (Fin 0)"
    by (simp add: terminal_snapshot_def)
qed

theorem failure_resets_progress_witness:
  "(1::int) \<noteq> 0
   \<and> published_by initial_service (fst (execute_download initial_service 1 (Exits [half_line] 1)))
       = [(1, progress_snapshot 0 (Fin 50)), (1, terminal_snapshot 0 ''failed'' None)]
   \<and> download_status (fst (execute_download initial_service 1 (Exits [half_line] 1))) 1
       = Some (terminal_snapshot 0 ''failed'' None)
   \<and> on_cancelled (read_output (register_task initial_service 1) 1 [half_line]) 1 (Alive (Some (- 15)))
       \<noteq> None
   \<and> sn_progress (terminal_snapshot 0 ''failed'' None) = Some (Fin 0)"
proof -
  have l: "published_by initial_service (fst (execute_download initial_service 1 (Exits [half_line] 1)))
       = [(1, progress_snapshot 0 (Fin 50)), (1, terminal_snapshot 0 ''failed'' None)]"
    by (simp add: execute_download_exits_log List.map_filter_simps eval_half_line
        del: published_by_initial)
  have c: "on_cancelled (read_output (register_task initial_service 1) 1 [half_line]) 1 (Alive (Some (- 15)))
       \<noteq> None"
    by (simp add: on_cancelled_def terminate_and_wait_def)
  show ?thesis
    using l c failure_resets_progress [of 1 initial_service 1 "[half_line]"]
    by simp
qed

text \<open>
  Claim C4, at a run that writes one line of diagnosis and exits with code 1.  The service
  publishes the status \<open>failed\<close> with no error detail at all; the in-process downloader, on
  the same run, records the status \<open>failed\<close> with the trailing line as its error message.
\<close>

theorem failed_download_drops_the_diagnostic:
  "download_status (fst (execute_download initial_service 1 (Exits [error_line] 1))) 1
     = Some \<lparr>sn_status = ''failed'', sn_updated_at = 0, sn_progress = Some (Fin 0),
             sn_error_message = None, sn_completed_at = None, sn_started_at = None\<rparr>
   \<and> fst (download_with_progress [3 \<mapsto> audio_job] 7 3 (Exits [error_line] 1)) 3
       = Some (audio_job\<lparr>status := ''failed'', progress := Fin 0,
                 error_message := Some error_line, completed_at := Some 7\<rparr>)"
proof -
  have s: "download_status (fst (execute_download initial_service 1 (Exits [error_line] 1))) 1
     = Some (terminal_snapshot 0 ''failed'' None)"
    by (simp add: execute_download_exits_status)
  have t: "start_download [3 \<mapsto> audio_job] 3
      = [3 \<mapsto> audio_job\<lparr>status := ''downloading'', progress := Fin 0\<rparr>]"
    by (simp add: start_download_def update_job_def)
  have j: "fst (download_with_progress [3 \<mapsto> audio_job] 7 3 (Exits [error_line] 1)) 3
       = Some (audio_job\<lparr>status := ''failed'', progress := Fin 0,
                 error_message := Some error_line, completed_at := Some 7\<rparr>)"
    by (simp add: download_with_progress_def Let_def t job_line_def eval_error_line_plain
        finish_download_def last_lines_def update_job_def)
  show ?thesis using s j by (simp add: terminal_snapshot_def)
qed

text \<open>
  Claim C2, as the code has it.  The retry of a record whose status is \<open>failed\<close> or
  \<open>cancelled\<close> sets the status to \<open>pending\<close> and the progress to 0, clears the error
  message, adds exactly 1 to the retry count and queues the job again, whatever the retry
  count is; the retry of a record in any other status is rejected with code 400 and the
  retry of an unknown record with code 404, and a rejection changes nothing.  The handler
  does not read \<open>max_retries\<close>.
\<close>

theorem retry_resets_and_requeues:
  "(table download_id = Some download \<and> (dl_status download = FAILED \<or> dl_status download = CANCELLED) \<longrightarrow>
      retry_download table s download_id now
        = Inr (table(download_id \<mapsto>
                 download\<lparr>dl_status := PENDING, dl_progress := Fin 0, dl_error_message := None,
                          dl_retry_count := dl_retry_count download + 1, dl_updated_at := now\<rparr>),
               s\<lparr>download_queue := (download_id, clock s) # download_queue s\<rparr>))
   \<and> (table download_id = Some download \<and> dl_status download \<noteq> FAILED \<and> dl_status download \<noteq> CANCELLED \<longrightarrow>
        retry_download table s download_id now
          = Inl (HTTPException 400 ''Can only retry failed or cancelled downloads''))
   \<and> (table download_id = None \<longrightarrow>
        retry_download table s download_id now = Inl (HTTPException 404 ''Download not found''))"
  by (auto simp: retry_download_def queue_download_def)

theorem retry_resets_and_requeues_witness:
  "[1 \<mapsto> failed_download, 2 \<mapsto> completed_download] (1::nat) = Some failed_download
   \<and> dl_status failed_download = FAILED \<and> dl_retry_count failed_download < dl_max_retries failed_download
   \<and> retry_download [1 \<mapsto> failed_download, 2 \<mapsto> completed_download] initial_service 1 9
       = Inr ([1 \<mapsto> failed_download\<lparr>dl_status := PENDING, dl_progress := Fin 0,
                      dl_error_message := None, dl_retry_count := 2, dl_updated_at := 9\<rparr>,
               2 \<mapsto> completed_download],
              initial_service\<lparr>download_queue := [(1, 0)]\<rparr>)
   \<and> [1 \<mapsto> failed_download, 2 \<mapsto> completed_download] (2::nat) = Some completed_download
   \<and> dl_status completed_download = COMPLETED
   \<and> retry_download [1 \<mapsto> failed_download, 2 \<mapsto> completed_download] initial_service 2 9
       = Inl (HTTPException 400 ''Can only retry failed or cancelled downloads'')"
proof -
  let ?t = "[1 \<mapsto> failed_download, 2 \<mapsto> completed_download] :: nat \<rightharpoonup> Download"
  have a: "?t 1 = Some failed_download" "?t 2 = Some completed_download" by simp_all
  have f: "dl_status failed_download = FAILED" "dl_retry_count failed_download = 1"
    "dl_max_retries failed_download = 3"
    by (simp_all add: failed_download_def)
  have c: "dl_status completed_download = COMPLETED"
    by (simp add: completed_download_def)
  have u: "?t(1 \<mapsto> failed_download\<lparr>dl_status := PENDING, dl_progress := Fin 0,
                      dl_error_message := None, dl_retry_count := 2, dl_updated_at := 9\<rparr>)
      = [1 \<mapsto> failed_download\<lparr>dl_status := PENDING, dl_progress := Fin 0,
                      dl_error_message := None, dl_retry_count := 2, dl_updated_at := 9\<rparr>,
         2 \<mapsto> completed_download]"
    by (simp add: fun_upd_twist)
  show ?thesis
    using a f c u
      retry_resets_and_requeues [of ?t 1 failed_download initial_service 9]
      retry_resets_and_requeues [of ?t 2 completed_download initial_service 9]
    by simp
qed

theorem retry_beyond_max_retries_counterexample:
  "dl_status exhausted_download = FAILED
   \<and> dl_retry_count exhausted_download = dl_max_retries exhausted_download
   \<and> retry_download [1 \<mapsto> exhausted_download] initial_service 1 9
       = Inr ([1 \<mapsto> exhausted_download\<lparr>dl_status := PENDING, dl_progress := Fin 0,
                      dl_error_message := None, dl_retry_count := 4, dl_updated_at := 9\<rparr>],
              initial_service\<lparr>download_queue := [(1, 0)]\<rparr>)"
  by (simp add: retry_download_def queue_download_def exhausted_download_def failed_download_def)

text \<open>
  Claim C3, as the code has it.  Cancelling a running job sends the terminate signal once
  and waits for the exit of the process, with no grace period and no forced termination.
  When the process exits, or had exited, or was never spawned, the job gets the status
  \<open>cancelled\<close> with progress 0 and leaves the active set.  When the process ignores the
  signal and never exits, neither the supervisor nor the caller of the cancellation ever
  returns.  Cancelling a job that is not active returns at once.
\<close>

theorem cancel_waits_for_the_exit:
  "(terminate_and_wait p = None) = (p = Alive None)
   \<and> (p \<noteq> Alive None \<longrightarrow>
        (\<exists>s'. on_cancelled s download_id p = Some s'
           \<and> download_status s' download_id = Some (terminal_snapshot (clock s) ''cancelled'' None)
           \<and> download_id \<notin> active_downloads s'))
   \<and> (p \<noteq> Alive None \<and> download_id \<in> active_downloads s \<longrightarrow>
        (\<exists>s'. cancel_download s download_id p = Some (s', False)
           \<and> download_status s' download_id = Some (terminal_snapshot (clock s) ''cancelled'' None)
           \<and> download_id \<notin> active_downloads s'))
   \<and> (download_id \<notin> active_downloads s \<longrightarrow> cancel_download s download_id p = Some (s, False))
   \<and> (p = Alive None \<longrightarrow> on_cancelled s download_id p = None)
   \<and> (p = Alive None \<and> download_id \<in> active_downloads s \<longrightarrow> cancel_download s download_id p = None)"
proof (intro conjI impI)
  show "(terminate_and_wait p = None) = (p = Alive None)" by (rule terminate_and_wait_None)
next
  assume "p \<noteq> Alive None"
  then obtain p' where "terminate_and_wait p = Some p'"
    using terminate_and_wait_None [of p] by auto
  then obtain s' where c: "on_cancelled s download_id p = Some s'"
    by (simp add: on_cancelled_def)
  with on_cancelled_Some [OF c]
  show "\<exists>s'. on_cancelled s download_id p = Some s'
           \<and> download_status s' download_id = Some (terminal_snapshot (clock s) ''cancelled'' None)
           \<and> download_id \<notin> active_downloads s'" by blast
next
  assume a: "p \<noteq> Alive None \<and> download_id \<in> active_downloads s"
  then obtain p' where "terminate_and_wait p = Some p'"
    using terminate_and_wait_None [of p] by auto
  then obtain s' where c: "on_cancelled s download_id p = Some s'"
    by (simp add: on_cancelled_def)
  have "cancel_download s download_id p = Some (s', False)"
    using a c on_cancelled_Some(3) [OF c] by (simp add: cancel_download_def)
  with on_cancelled_Some [OF c]
  show "\<exists>s'. cancel_download s download_id p = Some (s', False)
           \<and> download_status s' download_id = Some (terminal_snapshot (clock s) ''cancelled'' None)
           \<and> download_id \<notin> active_downloads s'" by blast
next
  assume "download_id \<notin> active_downloads s"
  then show "cancel_download s download_id p = Some (s, False)" by (simp add: cancel_download_def)
next
  assume "p = Alive None"
  then show "on_cancelled s download_id p = None"
    by (simp add: on_cancelled_def terminate_and_wait_def)
next
  assume "p = Alive None \<and> download_id \<in> active_downloads s"
  then show "cancel_download s download_id p = None"
    by (simp add: cancel_download_def on_cancelled_def terminate_and_wait_def)
qed

theorem cancel_waits_for_the_exit_witness:
  "Alive (Some (- 15)) \<noteq> Alive None
   \<and> 1 \<in> active_downloads (register_task initial_service 1)
   \<and> cancel_download (register_task initial_service 1) 1 (Alive (Some (- 15)))
       = Some (initial_service\<lparr>download_status := [1 \<mapsto> terminal_snapshot 0 ''cancelled'' None],
                 status_log := [(1, terminal_snapshot 0 ''cancelled'' None)]\<rparr>, False)
   \<and> 2 \<notin> active_downloads (register_task initial_service 1)
   \<and> cancel_download (register_task initial_service 1) 2 (Alive (Some (- 15)))
       = Some (register_task initial_service 1, False)"
proof -
  have a: "1 \<in> active_downloads (register_task initial_service 1)"
    "2 \<notin> active_downloads (register_task initial_service 1)"
    by (simp_all add: register_task_def)
  have c: "cancel_download (register_task initial_service 1) 1 (Alive (Some (- 15)))
       = Some (initial_service\<lparr>download_status := [1 \<mapsto> terminal_snapshot 0 ''cancelled'' None],
                 status_log := [(1, terminal_snapshot 0 ''cancelled'' None)]\<rparr>, False)"
    by (simp add: cancel_download_def on_cancelled_def terminate_and_wait_def register_task_def
        unregister_task_def update_download_status_def Let_def terminal_snapshot_def truthy_str_def
        initial_service_def)
  show ?thesis
    using a c
      cancel_waits_for_the_exit [of "Alive (Some (- 15))" "register_task initial_service 1" 2]
    by simp
qed

theorem cancel_blocks_counterexample:
  "1 \<in> active_downloads (register_task initial_service 1)
   \<and> terminate_and_wait (Alive None) = None
   \<and> cancel_download (register_task initial_service 1) 1 (Alive None) = None"
  by (simp add: cancel_download_def on_cancelled_def terminate_and_wait_def register_task_def)

section \<open>Properties of the schedulers\<close>

text \<open>
  One task that runs alone, step by step, is a call of \<open>process_download\<close>.
\<close>

lemma read_line_active [simp]: "active_downloads (read_line s i line) = active_downloads s"
  by (simp add: read_line_def Let_def)

lemma output_steps:
  "i \<in> active_downloads s \<Longrightarrow> foldl task_step s (map (Output i) lines) = read_output s i lines"
  unfolding read_output_def by (induction lines arbitrary: s) simp_all

lemma read_output_active [simp]: "active_downloads (read_output s i lines) = active_downloads s"
  unfolding read_output_def by (induction lines arbitrary: s) simp_all

lemma run_tasks_single_run:
  assumes "build_download_command c = Inr cmd"
  shows "run_tasks s (Spawned i # map (Output i) lines @ [Exited i returncode])
    = fst (process_download s i c (Exits lines returncode))"
proof -
  have a: "i \<in> active_downloads (register_task s i)" by (simp add: register_task_def)
  have "run_tasks s (Spawned i # map (Output i) lines @ [Exited i returncode])
      = task_step (read_output (register_task s i) i lines) (Exited i returncode)"
    using output_steps [OF a, of lines] by (simp add: run_tasks_def)
  also have "\<dots> = unregister_task (fst (on_exit (read_output (register_task s i) i lines) i returncode)) i"
    using a by simp
  also have "\<dots> = fst (process_download s i c (Exits lines returncode))"
    using assms by (simp add: process_download_def execute_download_def split: prod.splits)
  finally show ?thesis .
qed

lemma update_job_status:
  "job_is_downloading (d\<lparr>db := update_job (db d) job_id f\<rparr>) j \<longleftrightarrow>
     (if j = job_id
      then (case db d job_id of None \<Rightarrow> False | Some row \<Rightarrow> status (f row) = ''downloading'')
      else job_is_downloading d j)"
  by (auto simp: job_is_downloading_def update_job_def split: option.splits)

lemma job_is_downloading_db:
  "db d' = db d \<Longrightarrow> job_is_downloading d' j = job_is_downloading d j"
  by (simp add: job_is_downloading_def)

lemma job_line_downloading:
  "db d' = job_line (db d) job_id line \<Longrightarrow> job_is_downloading d' j = job_is_downloading d j"
  by (auto simp: job_is_downloading_def job_line_def update_job_def split: option.splits)

lemma start_download_downloading:
  "db d' = start_download (db d) job_id \<Longrightarrow> job_is_downloading d' j \<Longrightarrow>
   j = job_id \<or> job_is_downloading d j"
  by (auto simp: job_is_downloading_def start_download_def update_job_def split: option.splits if_splits)

lemma finish_download_downloading:
  "db d' = fst (finish_download (db d) now job_id output_lines returncode) \<Longrightarrow>
   job_is_downloading d' j \<Longrightarrow> j \<noteq> job_id \<and> job_is_downloading d j"
  by (auto simp: job_is_downloading_def finish_download_def Let_def update_job_def
      split: option.splits if_splits)

lemma fail_download_downloading:
  "db d' = fst (fail_download (db d) now job_id e) \<Longrightarrow>
   job_is_downloading d' j \<Longrightarrow> j \<noteq> job_id \<and> job_is_downloading d j"
  by (auto simp: job_is_downloading_def fail_download_def update_job_def
      split: option.splits if_splits)

lemma pool_invariant_initial: "pool_invariant w (initial_downloader w)"
  by (simp add: pool_invariant_def initial_downloader_def job_is_downloading_def)

lemma pool_invariant_step:
  assumes "downloader_step d d'" "pool_invariant w d"
  shows "pool_invariant w d'"
  using assms
proof (cases rule: downloader_step.cases)
  case (add_download job job_id)
  have "job_is_downloading d' j \<Longrightarrow> job_is_downloading d j" for j
    using add_download by (auto simp: job_is_downloading_def split: if_splits)
  then show ?thesis using assms(2) add_download(1) by (auto simp: pool_invariant_def)
next
  case (process_queue job job_id rest)
  have "job_is_downloading d' j = job_is_downloading d j" for j
    using process_queue by (simp add: job_is_downloading_def)
  then show ?thesis using assms(2) process_queue(1) by (auto simp: pool_invariant_def)
next
  case (worker_start job_id rest)
  have f: "finite (executor_running d)" and c: "card (executor_running d) < w"
    using assms(2) worker_start(3) by (auto simp: pool_invariant_def)
  have "card (insert job_id (executor_running d)) \<le> Suc (card (executor_running d))"
    by (rule card_insert_le_m1) simp_all
  then have c': "card (insert job_id (executor_running d)) \<le> w" using c by simp
  have "job_is_downloading d' j \<Longrightarrow> j = job_id \<or> job_is_downloading d j" for j
    using start_download_downloading [of d' d job_id j] worker_start(1) by simp
  then show ?thesis using assms(2) worker_start(1) f c' by (auto simp: pool_invariant_def)
next
  case (worker_line job_id line)
  have "job_is_downloading d' j = job_is_downloading d j" for j
    using job_line_downloading [of d' d job_id line j] worker_line(1) by simp
  then show ?thesis using assms(2) worker_line(1) by (auto simp: pool_invariant_def)
next
  case (worker_exit job_id now output_lines returncode)
  have "job_is_downloading d' j \<Longrightarrow> j \<noteq> job_id \<and> job_is_downloading d j" for j
    using finish_download_downloading [of d' d now job_id output_lines returncode j] worker_exit(1)
    by simp
  moreover have "card (executor_running d - {job_id}) \<le> card (executor_running d)"
    using assms(2) by (auto simp: pool_invariant_def intro: card_mono)
  ultimately show ?thesis using assms(2) worker_exit(1) by (auto simp: pool_invariant_def)
next
  case (worker_exception job_id now e)
  have "job_is_downloading d' j \<Longrightarrow> j \<noteq> job_id \<and> job_is_downloading d j" for j
    using fail_download_downloading [of d' d now job_id e j] worker_exception(1) by simp
  moreover have "card (executor_running d - {job_id}) \<le> card (executor_running d)"
    using assms(2) by (auto simp: pool_invariant_def intro: card_mono)
  ultimately show ?thesis using assms(2) worker_exception(1) by (auto simp: pool_invariant_def)
qed

lemma pool_invariant_reachable: "downloader_reachable w d \<Longrightarrow> pool_invariant w d"
  by (induction rule: downloader_reachable.induct)
    (auto intro: pool_invariant_initial pool_invariant_step)

lemma busy_downloader_reachable: "downloader_reachable 1 busy_downloader"
proof -
  let ?j = audio_job
  let ?d1 = "\<lparr>max_workers = 1, job_download_queue = [(?j, 1)], job_active_downloads = {},
      executor_queue = [], executor_running = {}, futures_done = {},
      db = [1 \<mapsto> ?j], lastrowid = 1\<rparr>"
  let ?d2 = "\<lparr>max_workers = 1, job_download_queue = [(?j, 1), (?j, 2)], job_active_downloads = {},
      executor_queue = [], executor_running = {}, futures_done = {},
      db = [1 \<mapsto> ?j, 2 \<mapsto> ?j], lastrowid = 2\<rparr>"
  let ?d3 = "\<lparr>max_workers = 1, job_download_queue = [(?j, 2)], job_active_downloads = {1},
      executor_queue = [1], executor_running = {}, futures_done = {},
      db = [1 \<mapsto> ?j, 2 \<mapsto> ?j], lastrowid = 2\<rparr>"
  let ?d4 = "\<lparr>max_workers = 1, job_download_queue = [], job_active_downloads = {1, 2},
      executor_queue = [1, 2], executor_running = {}, futures_done = {},
      db = [1 \<mapsto> ?j, 2 \<mapsto> ?j], lastrowid = 2\<rparr>"
  have p: "status ?j = ''pending''" by (simp add: audio_job_def)
  have r0: "downloader_reachable 1 (initial_downloader 1)" by (rule downloader_reachable.start)
  have s1: "downloader_step (initial_downloader 1) ?d1"
    using downloader_step.add_download [of ?j 1 "initial_downloader 1"] p
    by (simp add: initial_downloader_def)
  have s2: "downloader_step ?d1 ?d2"
    using downloader_step.add_download [of ?j 2 ?d1] p by simp
  have s3: "downloader_step ?d2 ?d3"
    using downloader_step.process_queue [of ?d2 ?j 1 "[(?j, 2)]"] by simp
  have s4: "downloader_step ?d3 ?d4"
    using downloader_step.process_queue [of ?d3 ?j 2 "[]"] by (simp add: insert_commute)
  have u: "start_download [1 \<mapsto> ?j, 2 \<mapsto> ?j] 1
      = [1 \<mapsto> ?j\<lparr>status := ''downloading'', progress := Fin 0\<rparr>, 2 \<mapsto> ?j]"
    by (auto simp: start_download_def update_job_def)
  have s5: "downloader_step ?d4 busy_downloader"
    using downloader_step.worker_start [of ?d4 1 "[2]"] u
    by (simp add: busy_downloader_def)
  show ?thesis
    using r0 s1 s2 s3 s4 s5 downloader_reachable.step by blast
qed

lemma busy_downloader_downloading: "job_is_downloading busy_downloader 1"
  by (simp add: busy_downloader_def job_is_downloading_def)

lemma eval_half_tenth_stripped:
  "strip half_line = half_line" "strip tenth_line = tenth_line"
  "half_line \<noteq> []" "tenth_line \<noteq> []"
  "sublist ''[download]'' half_line" "sublist ''[download]'' tenth_line"
  "sublist ''%'' half_line" "sublist ''%'' tenth_line"
  "first_percentage (split half_line) = Some (Fin 50)"
  "first_percentage (split tenth_line) = Some (Fin 10)"
  "\<not> sublist ''/s'' half_line" "\<not> sublist ''/s'' tenth_line"
  "\<not> sublist ''iB/s'' half_line" "\<not> sublist ''iB/s'' tenth_line"
  by code_simp+

lemma read_half_tenth:
  "read_line s i half_line = update_download_progress s i (Fin 50)"
  "read_line s i tenth_line = update_download_progress s i (Fin 10)"
  by (simp_all add: read_line_def Let_def parse_progress_def eval_half_tenth_stripped)

text \<open>
  Claim C1, as the code has it.  In every state the in-process downloader can reach, the
  jobs whose status is \<open>downloading\<close> are jobs that a worker of the pool is running, so
  they are at most \<open>max_workers\<close>, the capacity the downloader reports.  The queue-backed
  service has no such bound: \<open>process_download\<close> admits every job it is given, and
  \<open>MAX_CONCURRENT_DOWNLOADS\<close> only enters the capacity it reports.
\<close>

theorem pool_bounds_downloading_jobs:
  assumes "downloader_reachable w d"
  shows "finite {job_id. job_is_downloading d job_id}
    \<and> card {job_id. job_is_downloading d job_id} \<le> w
    \<and> pool_capacity (job_get_queue_status d) = w"
proof -
  from pool_invariant_reachable [OF assms] have
    i: "max_workers d = w" "finite (executor_running d)" "card (executor_running d) \<le> w"
       "{job_id. job_is_downloading d job_id} \<subseteq> executor_running d"
    by (simp_all add: pool_invariant_def)
  have "finite {job_id. job_is_downloading d job_id}" using i(2,4) by (rule rev_finite_subset)
  moreover have "card {job_id. job_is_downloading d job_id} \<le> card (executor_running d)"
    using i(2,4) by (simp add: card_mono)
  ultimately show ?thesis using i(1,3) by (simp add: job_get_queue_status_def)
qed

theorem pool_bounds_downloading_jobs_witness:
  "downloader_reachable 1 busy_downloader
   \<and> job_is_downloading busy_downloader 1
   \<and> executor_queue busy_downloader = [2]
   \<and> card {job_id. job_is_downloading busy_downloader job_id} \<le> 1"
proof -
  have r: "downloader_reachable 1 busy_downloader" by (rule busy_downloader_reachable)
  show ?thesis
    using r busy_downloader_downloading pool_bounds_downloading_jobs [OF r]
    by (simp add: busy_downloader_def)
qed

theorem service_exceeds_capacity_counterexample:
  "is_downloading (run_tasks initial_service two_tasks) 1
   \<and> is_downloading (run_tasks initial_service two_tasks) 2
   \<and> active_downloads (run_tasks initial_service two_tasks) = {1, 2}
   \<and> total_capacity (get_queue_status 1 (run_tasks initial_service two_tasks)) = 1
   \<and> active_count (get_queue_status 1 (run_tasks initial_service two_tasks)) = 2"
proof -
  let ?s = "run_tasks initial_service two_tasks"
  have a: "active_downloads ?s = {1, 2}"
    by (auto simp: run_tasks_def two_tasks_def register_task_def read_half_tenth
        update_download_progress_log)
  have d: "download_status ?s 1 = Some (progress_snapshot 0 (Fin 50))"
    "download_status ?s 2 = Some (progress_snapshot 0 (Fin 10))"
    by (simp_all add: run_tasks_def two_tasks_def register_task_def read_half_tenth
        update_download_progress_log)
  have c: "card {1, 2 :: nat} = 2" by simp
  show ?thesis
    using a d c by (simp add: is_downloading_def progress_snapshot_def get_queue_status_def)
qed

end
